theory Spec2Isabelle
  imports Complex_Main "HOL-Library.Char_ord" "HOL-Library.List_Lexorder"
begin

section \<open>Python values handled by \<open>quanalys/syncdata/h5py_utils.py\<close>\<close>

text \<open>
  Exceptions are values.  \<open>FileLockedError\<close> is the module's own exception; the others are
  the built-in exceptions that the library calls of the module raise.
\<close>

datatype pyerror =
    FileLockedError
  | OverflowError
  | ValueError
  | TypeError
  | KeyError
  | OSError
  | FileNotFoundError
  | UnicodeDecodeError

text \<open>
  A Python \<open>float\<close> is an IEEE double: a dyadic rational \<open>m * 2 ^ e\<close> (\<open>Finite m e\<close>, where
  \<open>Finite 0 e\<close> is \<open>+0.0\<close>), negative zero, an infinity or a NaN.  Every double is a value of
  this type.
\<close>

datatype pyfloat = Finite int int | NegZero | PosInf | NegInf | NaN

text \<open>
  The values the module receives.  Text (\<open>str\<close>) and byte strings are HOL strings, a
  character standing for a code point (a byte) below 256.  \<open>NpInt\<close> and \<open>NpFloat\<close> are
  the numpy scalars \<open>np.int_\<close> (\<open>numpy.int64\<close>) and \<open>np.float_\<close> (\<open>numpy.float64\<close>).
  \<open>PSet xs\<close> lists the elements of a set in iteration order, \<open>PDict kvs\<close> the items of a
  dict in insertion order (keys are strings, and distinct in a dict).  \<open>PArray x\<close> is the
  \<open>numpy.ndarray\<close> that \<open>np.array(x)\<close> builds.  \<open>PObj name marker asdict asarray\<close> is an
  instance of any other class, named \<open>name\<close>: \<open>marker\<close> is the value of its attribute
  \<open>__should_not_be_converted__\<close>, \<open>asdict\<close> what its method \<open>_asdict()\<close> returns and
  \<open>asarray\<close> what \<open>asarray()\<close> returns, each \<open>None\<close> when the attribute is missing.
\<close>

datatype pyval =
    PNone
  | PBool bool
  | PInt int
  | PFloat pyfloat
  | PStr string
  | PBytes string
  | NpInt int
  | NpFloat pyfloat
  | PList "pyval list"
  | PTuple "pyval list"
  | PSet "pyval list"
  | PArray pyval
  | PDict "(string \<times> pyval) list"
  | PObj string "pyval option" "pyval option" "pyval option"

type_synonym pydict = "(string \<times> pyval) list"

text \<open>\<open>type(v).__name__\<close>\<close>

fun type_name :: "pyval \<Rightarrow> string" where
  "type_name PNone = ''NoneType''"
| "type_name (PBool _) = ''bool''"
| "type_name (PInt _) = ''int''"
| "type_name (PFloat _) = ''float''"
| "type_name (PStr _) = ''str''"
| "type_name (PBytes _) = ''bytes''"
| "type_name (NpInt _) = ''int64''"
| "type_name (NpFloat _) = ''float64''"
| "type_name (PList _) = ''list''"
| "type_name (PTuple _) = ''tuple''"
| "type_name (PSet _) = ''set''"
| "type_name (PArray _) = ''ndarray''"
| "type_name (PDict _) = ''dict''"
| "type_name (PObj n _ _ _) = n"

text \<open>\<open>d[k] = v\<close> on a dict: an existing key keeps its place, a new key goes last.\<close>

fun dict_set :: "(string \<times> 'v) list \<Rightarrow> string \<Rightarrow> 'v \<Rightarrow> (string \<times> 'v) list" where
  "dict_set [] k v = [(k, v)]"
| "dict_set ((k', v') # kvs) k v =
     (if k' = k then (k, v) # kvs else (k', v') # dict_set kvs k v)"

section \<open>Number formatting\<close>

text \<open>Decimal digits of a natural number, as \<open>str\<close> prints them.\<close>

definition digit_char :: "nat \<Rightarrow> char" where
  "digit_char n = ''0123456789'' ! n"

function str_of_nat :: "nat \<Rightarrow> string" where
  "str_of_nat n = (if n < 10 then [digit_char n] else str_of_nat (n div 10) @ [digit_char (n mod 10)])"
  by pat_completeness auto
termination
  by (relation "measure id") auto

declare str_of_nat.simps [simp del]

text \<open>Zero padding on the left up to width \<open>w\<close>.\<close>

definition zero_pad :: "nat \<Rightarrow> string \<Rightarrow> string" where
  "zero_pad w s = replicate (w - length s) (CHR ''0'') @ s"

text \<open>The quotient \<open>n / d\<close> rounded to the nearest integer, ties to the even one.\<close>

definition round_half_even :: "nat \<Rightarrow> nat \<Rightarrow> nat" where
  "round_half_even n d =
     (let q = n div d; r = n mod d
      in if 2 * r < d then q else if d < 2 * r then q + 1 else if even q then q else q + 1)"

text \<open>Numerator and denominator of the magnitude of \<open>m * 2 ^ e\<close>.\<close>

definition magnitude :: "int \<Rightarrow> int \<Rightarrow> nat \<times> nat" where
  "magnitude m e = (nat \<bar>m\<bar> * 2 ^ nat e, 2 ^ nat (- e))"

text \<open>
  Python's \<open>int\<close> to \<open>float\<close> conversion: exact up to 53 bits, rounded to the nearest
  double (ties to even) above, \<open>OverflowError\<close> when the result is no finite double.  The
  result is the (integer) value of the double.
\<close>

function bit_length :: "nat \<Rightarrow> nat" where
  "bit_length n = (if n = 0 then 0 else Suc (bit_length (n div 2)))"
  by pat_completeness auto
termination
  by (relation "measure id") auto

declare bit_length.simps [simp del]

definition int_to_float :: "int \<Rightarrow> pyerror + int" where
  "int_to_float n =
     (let a = nat \<bar>n\<bar>; b = bit_length a
      in if b \<le> 53 then Inr n
         else let sh = b - 53; v = round_half_even a (2 ^ sh) * 2 ^ sh
              in if 2 ^ 1024 \<le> v then Inl OverflowError
                 else Inr (if n < 0 then - int v else int v))"

text \<open>\<open>f"{v:.0f}"\<close> for an \<open>int\<close>, a \<open>bool\<close> or a numpy integer: the value goes through \<open>float\<close>.\<close>

definition format_0f :: "int \<Rightarrow> pyerror + string" where
  "format_0f n =
     (case int_to_float n of
        Inl err \<Rightarrow> Inl err
      | Inr v \<Rightarrow> Inr ((if v < 0 then ''-'' else '''') @ str_of_nat (nat \<bar>v\<bar>)))"

text \<open>\<open>f"{v:.3f}"\<close>: the exact value rounded to three decimals, ties to even.\<close>

definition fixed3 :: "nat \<times> nat \<Rightarrow> string" where
  "fixed3 nd =
     (let n = round_half_even (fst nd * 1000) (snd nd)
      in str_of_nat (n div 1000) @ ''.'' @ zero_pad 3 (str_of_nat (n mod 1000)))"

fun format_3f :: "pyfloat \<Rightarrow> string" where
  "format_3f (Finite m e) = (if m < 0 then ''-'' else '''') @ fixed3 (magnitude m e)"
| "format_3f NegZero = ''-0.000''"
| "format_3f PosInf = ''inf''"
| "format_3f NegInf = ''-inf''"
| "format_3f NaN = ''nan''"

text \<open>
  \<open>f"{v:.3e}"\<close>: one digit, a point, three digits, then the decimal exponent with a sign
  and at least two digits.  \<open>exp10_up n d 0\<close> is the decimal exponent of \<open>n / d \<ge> 1\<close>,
  \<open>exp10_down n d 0\<close> its negation for \<open>0 < n / d < 1\<close>.
\<close>

function exp10_up :: "nat \<Rightarrow> nat \<Rightarrow> nat \<Rightarrow> nat" where
  "exp10_up n d k = (if 0 < d \<and> 10 * 10 ^ k * d \<le> n then exp10_up n d (Suc k) else k)"
  by pat_completeness auto
termination
proof (relation "measure (\<lambda>(n, d, k). Suc n - 10 ^ k * d)", goal_cases)
  case 1
  show ?case by simp
next
  case (2 n d k)
  then have "0 < d" and le: "10 * 10 ^ k * d \<le> n" by simp_all
  then have "10 ^ k * d < 10 * 10 ^ k * d" by simp
  moreover from this le have "10 ^ k * d < Suc n" by simp
  ultimately show ?case by (simp add: diff_less_mono2)
qed

function exp10_down :: "nat \<Rightarrow> nat \<Rightarrow> nat \<Rightarrow> nat" where
  "exp10_down n d k = (if 0 < n \<and> n * 10 ^ k < d then exp10_down n d (Suc k) else k)"
  by pat_completeness auto
termination
proof (relation "measure (\<lambda>(n, d, k). d - n * 10 ^ k)", goal_cases)
  case 1
  show ?case by simp
next
  case (2 n d k)
  then have "0 < n" and lt: "n * 10 ^ k < d" by simp_all
  then have "n * 10 ^ k < n * (10 * 10 ^ k)" by simp
  with lt show ?case by (simp add: diff_less_mono2)
qed

declare exp10_up.simps [simp del] exp10_down.simps [simp del]

definition sci3 :: "nat \<times> nat \<Rightarrow> string" where
  "sci3 nd =
     (let n = fst nd; d = snd nd;
          ex = (if d \<le> n then int (exp10_up n d 0) else - int (exp10_down n d 0));
          m = (if 3 \<le> ex then round_half_even n (d * 10 ^ nat (ex - 3))
               else round_half_even (n * 10 ^ nat (3 - ex)) d);
          m' = (if 10000 \<le> m then 1000 else m);
          ex' = (if 10000 \<le> m then ex + 1 else ex)
      in str_of_nat (m' div 1000) @ ''.'' @ zero_pad 3 (str_of_nat (m' mod 1000)) @ ''e''
         @ (if ex' < 0 then ''-'' else ''+'') @ zero_pad 2 (str_of_nat (nat \<bar>ex'\<bar>)))"

fun format_3e :: "pyfloat \<Rightarrow> string" where
  "format_3e (Finite m e) =
     (if m = 0 then ''0.000e+00''
      else (if m < 0 then ''-'' else '''') @ sci3 (magnitude m e))"
| "format_3e NegZero = ''-0.000e+00''"
| "format_3e PosInf = ''inf''"
| "format_3e NegInf = ''-inf''"
| "format_3e NaN = ''nan''"

text \<open>
  The test \<open>.1 <= v <= 100\<close>.  The literal \<open>.1\<close> is the double
  \<open>3602879701896397 * 2 ^ -55\<close>; comparisons with a NaN are false and \<open>-0.0\<close> equals \<open>0.0\<close>.
\<close>

definition dyadic_le :: "int \<Rightarrow> int \<Rightarrow> int \<Rightarrow> int \<Rightarrow> bool" where
  "dyadic_le m1 e1 m2 e2 =
     (let e = min e1 e2 in m1 * 2 ^ nat (e1 - e) \<le> m2 * 2 ^ nat (e2 - e))"

fun float_le :: "pyfloat \<Rightarrow> pyfloat \<Rightarrow> bool" where
  "float_le NaN _ = False"
| "float_le _ NaN = False"
| "float_le NegInf _ = True"
| "float_le _ PosInf = True"
| "float_le PosInf _ = False"
| "float_le _ NegInf = False"
| "float_le NegZero NegZero = True"
| "float_le NegZero (Finite m e) = (0 \<le> m)"
| "float_le (Finite m e) NegZero = (m \<le> 0)"
| "float_le (Finite m1 e1) (Finite m2 e2) = dyadic_le m1 e1 m2 e2"

definition point_one :: pyfloat where
  "point_one = Finite 3602879701896397 (- 55)"

definition in_fixed_range :: "pyfloat \<Rightarrow> bool" where
  "in_fixed_range v = (float_le point_one v \<and> float_le v (Finite 100 0))"

section \<open>The structure summarizer\<close>

text \<open>
  A summary maps each key to a description, which is a string or, for a nested dict that
  is kept, the summary of that dict.
\<close>

datatype summary = SStr string | SDict "(string \<times> summary) list"

text \<open>\<open>len\<close> of a description: the characters of a string, the keys of a dict.\<close>

fun py_len :: "summary \<Rightarrow> nat" where
  "py_len (SStr s) = length s"
| "py_len (SDict kvs) = length kvs"

text \<open>\<open>sep.join(xs)\<close>\<close>

fun join :: "string \<Rightarrow> string list \<Rightarrow> string" where
  "join sep [] = []"
| "join sep [x] = x"
| "join sep (x # y # ys) = x @ sep @ join sep (y # ys)"

text \<open>How Python prints a tuple of integers, here the shape of an array.\<close>

fun tuple_repr :: "nat list \<Rightarrow> string" where
  "tuple_repr [] = ''()''"
| "tuple_repr [n] = ''('' @ str_of_nat n @ '',)''"
| "tuple_repr ns = ''('' @ join '', '' (map str_of_nat ns) @ '')''"

text \<open>
  \<open>get_dict_structure\<close>.  \<open>np.shape\<close> is numpy's and is a parameter \<open>shp\<close>: it returns
  the shape or raises.  \<open>get_dict_structure_items\<close> is the loop over \<open>data.items()\<close> with
  the dict \<open>structure\<close> built so far, \<open>get_dict_structure_value\<close> the \<open>if\<close> chain of its
  body.  The level is an \<open>int\<close>, as in Python: \<open>if level\<close> holds for every level but 0.
\<close>

function get_dict_structure_items ::
    "(pyval \<Rightarrow> pyerror + nat list) \<Rightarrow> pydict \<Rightarrow> int \<Rightarrow> (string \<times> summary) list
       \<Rightarrow> pyerror + (string \<times> summary) list"
  and get_dict_structure_value ::
    "(pyval \<Rightarrow> pyerror + nat list) \<Rightarrow> pyval \<Rightarrow> int \<Rightarrow> pyerror + summary"
where
  "get_dict_structure_items shp [] level structure = Inr structure"
| "get_dict_structure_items shp ((k, v) # items) level structure =
     (case get_dict_structure_value shp v level of
        Inl err \<Rightarrow> Inl err
      | Inr s \<Rightarrow> get_dict_structure_items shp items level (dict_set structure k s))"
| "get_dict_structure_value shp v level =
     (case v of
        PDict d \<Rightarrow>
          if level \<noteq> 0 then
            (case (if length d \<noteq> 0
                   then map_sum id SDict (get_dict_structure_items shp d (level - 1) [])
                   else Inr (SStr ''empty dict'')) of
               Inl err \<Rightarrow> Inl err
             | Inr internal_structure \<Rightarrow>
                 Inr (if 5 < py_len internal_structure then SStr ''variable of type dict''
                      else internal_structure))
          else Inr (SStr ''variable of type dict'')
      | PArray _ \<Rightarrow>
          map_sum id (\<lambda>sh. SStr (''shape: '' @ tuple_repr sh @ '' (type: '' @ type_name v @ '')'')) (shp v)
      | PList _ \<Rightarrow>
          map_sum id (\<lambda>sh. SStr (''shape: '' @ tuple_repr sh @ '' (type: '' @ type_name v @ '')'')) (shp v)
      | PBool b \<Rightarrow>
          map_sum id (\<lambda>str. SStr (str @ '' (type : '' @ type_name v @ '')'')) (format_0f (if b then 1 else 0))
      | PInt n \<Rightarrow>
          map_sum id (\<lambda>str. SStr (str @ '' (type : '' @ type_name v @ '')'')) (format_0f n)
      | NpInt n \<Rightarrow>
          map_sum id (\<lambda>str. SStr (str @ '' (type : '' @ type_name v @ '')'')) (format_0f n)
      | PFloat x \<Rightarrow>
          (let str_value = (if in_fixed_range x then format_3f x else format_3e x)
           in Inr (SStr (str_value @ '' (type : '' @ type_name v @ '')'')))
      | NpFloat x \<Rightarrow>
          (let str_value = (if in_fixed_range x then format_3f x else format_3e x)
           in Inr (SStr (str_value @ '' (type : '' @ type_name v @ '')'')))
      | _ \<Rightarrow> Inr (SStr (''variable of type '' @ type_name v)))"
  by pat_completeness auto
termination
  by (relation "measure (\<lambda>x. case x of
        Inl (_, items, _, _) \<Rightarrow> size_list (size_prod (\<lambda>_. 0) size) items
      | Inr (_, v, _) \<Rightarrow> size v)") auto

declare get_dict_structure_value.simps [simp del]

definition get_dict_structure ::
    "(pyval \<Rightarrow> pyerror + nat list) \<Rightarrow> pydict \<Rightarrow> int \<Rightarrow> pyerror + (string \<times> summary) list" where
  "get_dict_structure shp data level = get_dict_structure_items shp data level []"

text \<open>
  A model of \<open>np.shape\<close> for the examples: the shape of a regularly nested sequence, and
  \<open>ValueError\<close> for a ragged one.
\<close>

fun np_shape :: "pyval \<Rightarrow> pyerror + nat list" where
  "np_shape (PArray x) = np_shape x"
| "np_shape (PList xs) =
     (case map np_shape xs of
        [] \<Rightarrow> Inr [0]
      | Inl err # _ \<Rightarrow> Inl err
      | Inr sh # shs \<Rightarrow>
          if list_all (\<lambda>s. s = Inr sh) shs then Inr (length xs # sh) else Inl ValueError)"
| "np_shape (PTuple xs) =
     (case map np_shape xs of
        [] \<Rightarrow> Inr [0]
      | Inl err # _ \<Rightarrow> Inl err
      | Inr sh # shs \<Rightarrow>
          if list_all (\<lambda>s. s = Inr sh) shs then Inr (length xs # sh) else Inl ValueError)"
| "np_shape _ = Inr []"


text \<open>An example: a dict with 6 keys, one of them a dict with 6 keys.\<close>

definition six_keys :: pydict where
  "six_keys =
     [(''a'', PStr ''x''), (''b'', PStr ''x''), (''c'', PStr ''x''), (''d'', PStr ''x''),
      (''e'', PStr ''x''),
      (''f'', PDict [(''1'', PStr ''x''), (''2'', PStr ''x''), (''3'', PStr ''x''),
                    (''4'', PStr ''x''), (''5'', PStr ''x''), (''6'', PStr ''x'')])]"


section \<open>Paths and files\<close>

text \<open>
  \<open>os.path.dirname\<close> and the root part of \<open>os.path.splitext\<close>, as \<open>posixpath\<close> defines them.
  \<open>os_path_basename p\<close> is what follows the last slash of \<open>p\<close>.
\<close>

definition os_path_basename :: "string \<Rightarrow> string" where
  "os_path_basename p = rev (takeWhile (\<lambda>c. c \<noteq> CHR ''/'') (rev p))"

definition os_path_dirname :: "string \<Rightarrow> string" where
  "os_path_dirname p =
     (let head = take (length p - length (os_path_basename p)) p
      in if head \<noteq> [] \<and> \<not> list_all (\<lambda>c. c = CHR ''/'') head
         then rev (dropWhile (\<lambda>c. c = CHR ''/'') (rev head))
         else head)"

text \<open>
  The extension starts at the last dot of the base name, unless only dots precede that dot
  in the base name; then there is no extension.
\<close>

definition splitext_root :: "string \<Rightarrow> string" where
  "splitext_root p =
     (let base = os_path_basename p;
          stem = rev (tl (dropWhile (\<lambda>c. c \<noteq> CHR ''.'') (rev base)))
      in if list_all (\<lambda>c. c = CHR ''.'') stem then p
         else take (length p - length base) p @ stem)"

text \<open>
  \<open>os.makedirs(name, exist_ok=True)\<close> raises \<open>FileNotFoundError\<close> on the empty name.
  Directories are not part of the state: every other directory is taken to exist or to be
  created.
\<close>

definition os_makedirs :: "string \<Rightarrow> pyerror + unit" where
  "os_makedirs name = (if name = [] then Inl FileNotFoundError else Inr ())"

section \<open>The container\<close>

text \<open>
  An HDF5 container as \<open>h5py\<close> shows it.  A group lists its members, each under its name;
  a member is a group or a dataset.  A dataset holds the value that reading it
  (\<open>dataset[()]\<close>) returns, and whether it was created with \<open>compression="gzip"\<close>.  The
  members of a group are listed by name, in increasing order, as \<open>h5py\<close> lists them.
\<close>

datatype h5node = H5Group "(string \<times> h5node) list" | H5Dataset pyval bool

type_synonym h5group = "(string \<times> h5node) list"

text \<open>
  The operations below are those of \<open>h5py\<close> on plain names.  A name with a slash is a path
  for \<open>h5py\<close> (it is looked up, created and unlinked inside other groups), and the empty
  name and the name \<open>.\<close> are no names of members: the statements on the writer are made
  for plain names only.
\<close>

definition plain_name :: "string \<Rightarrow> bool" where
  "plain_name key = (key \<noteq> [] \<and> key \<noteq> ''.'' \<and> CHR ''/'' \<notin> set key)"

text \<open>
  What \<open>h5py\<close> makes of the data of \<open>create_dataset(key, data=data)\<close> is a parameter
  \<open>conv\<close> of the writer: \<open>conv data gzip\<close> is the value that a later read returns, or the
  exception raised (\<open>gzip\<close> tells whether \<open>compression="gzip"\<close> was asked for).
\<close>

type_synonym h5conv = "pyval \<Rightarrow> bool \<Rightarrow> pyerror + pyval"

definition create_group :: "h5group \<Rightarrow> string \<Rightarrow> pyerror + h5group" where
  "create_group grp key =
     (if key \<in> fst ` set grp then Inl ValueError
      else Inr (insort_key fst (key, H5Group []) grp))"

definition create_dataset :: "h5conv \<Rightarrow> h5group \<Rightarrow> string \<Rightarrow> pyval \<Rightarrow> bool \<Rightarrow> pyerror + h5group" where
  "create_dataset conv grp key data gzip =
     (case conv data gzip of
        Inl err \<Rightarrow> Inl err
      | Inr v \<Rightarrow>
          if key \<in> fst ` set grp then Inl ValueError
          else Inr (insort_key fst (key, H5Dataset v gzip) grp))"

text \<open>\<open>group.pop(key)\<close> for a key of the group.\<close>

definition group_pop :: "h5group \<Rightarrow> string \<Rightarrow> h5group" where
  "group_pop grp key = filter (\<lambda>kn. fst kn \<noteq> key) grp"

text \<open>
  A file is an HDF5 container or, like the lock file that \<open>open(name, 'w')\<close> creates, empty.
  The file system maps the names of the existing files to their contents.
\<close>

datatype os_file = EmptyFile | Hdf5File h5group

type_synonym filesystem = "string \<Rightarrow> os_file option"

text \<open>
  \<open>h5py.File(name, 'a')\<close> opens a container; it creates one when no file has this name,
  and makes one of an empty file.  \<open>h5py.File(name, 'r')\<close> opens a container; it raises
  \<open>FileNotFoundError\<close> when no file has this name and \<open>OSError\<close> on an empty file.
\<close>

definition h5py_File_a :: "filesystem \<Rightarrow> string \<Rightarrow> pyerror + h5group" where
  "h5py_File_a fs name =
     (case fs name of
        None \<Rightarrow> Inr []
      | Some EmptyFile \<Rightarrow> Inr []
      | Some (Hdf5File file) \<Rightarrow> Inr file)"

definition h5py_File_r :: "filesystem \<Rightarrow> string \<Rightarrow> pyerror + h5group" where
  "h5py_File_r fs name =
     (case fs name of
        None \<Rightarrow> Inl FileNotFoundError
      | Some EmptyFile \<Rightarrow> Inl OSError
      | Some (Hdf5File file) \<Rightarrow> Inr file)"

text \<open>
  \<open>os.path.getmtime(name)\<close> raises \<open>FileNotFoundError\<close> when no file has this name.  The
  time itself is not modelled: the unit value stands for it.
\<close>

definition os_path_getmtime :: "filesystem \<Rightarrow> string \<Rightarrow> pyerror + unit" where
  "os_path_getmtime fs name = (if fs name = None then Inl FileNotFoundError else Inr ())"

section \<open>The lock\<close>

text \<open>\<open>LockFile.__init__\<close>, \<open>__enter__\<close> and \<open>__exit__\<close>.\<close>

definition lock_filename :: "string \<Rightarrow> string" where
  "lock_filename filename = splitext_root filename @ ''.lock''"

definition LockFile_enter :: "filesystem \<Rightarrow> string \<Rightarrow> pyerror + filesystem" where
  "LockFile_enter fs filename =
     (if fs (lock_filename filename) \<noteq> None then Inl FileLockedError
      else Inr (fs(lock_filename filename \<mapsto> EmptyFile)))"

definition LockFile_exit :: "filesystem \<Rightarrow> string \<Rightarrow> filesystem" where
  "LockFile_exit fs filename =
     (if fs (lock_filename filename) \<noteq> None then fs(lock_filename filename := None) else fs)"

section \<open>The normalizer\<close>

text \<open>
  \<open>if hasattr(data, '_asdict'): data = data._asdict()\<close> and
  \<open>if hasattr(data, 'asarray'): data = data.asarray()\<close>.
\<close>

fun asdict_step :: "pyval \<Rightarrow> pyval" where
  "asdict_step (PObj n marker (Some d) a) = d"
| "asdict_step data = data"

fun asarray_step :: "pyval \<Rightarrow> pyval" where
  "asarray_step (PObj n marker d (Some a)) = a"
| "asarray_step data = data"

text \<open>The attribute \<open>__should_not_be_converted__\<close> exists and is the object \<open>True\<close>.\<close>

fun should_not_be_converted :: "pyval \<Rightarrow> bool" where
  "should_not_be_converted (PObj n (Some (PBool True)) d a) = True"
| "should_not_be_converted data = False"

text \<open>
  \<open>transform_to_possible_formats\<close>.  \<open>np.array\<close> on a list is numpy's and is a parameter
  \<open>np_array\<close>: it returns an array or raises.  \<open>transform_to_possible_formats_items\<close> is
  the loop over \<open>data.items()\<close>.
\<close>

function transform_to_possible_formats ::
    "(pyval list \<Rightarrow> pyerror + pyval) \<Rightarrow> pyval \<Rightarrow> pyerror + pyval"
  and transform_to_possible_formats_items ::
    "(pyval list \<Rightarrow> pyerror + pyval) \<Rightarrow> pydict \<Rightarrow> pyerror + pydict"
where
  "transform_to_possible_formats np_array data =
     (if should_not_be_converted data then Inr data
      else case asarray_step (asdict_step data) of
             PDict d \<Rightarrow> map_sum id PDict (transform_to_possible_formats_items np_array d)
           | PTuple xs \<Rightarrow> np_array xs
           | PSet xs \<Rightarrow> np_array xs
           | PList xs \<Rightarrow> np_array xs
           | data' \<Rightarrow> Inr data')"
| "transform_to_possible_formats_items np_array [] = Inr []"
| "transform_to_possible_formats_items np_array ((key, v) # items) =
     (case transform_to_possible_formats np_array v of
        Inl err \<Rightarrow> Inl err
      | Inr v' \<Rightarrow>
          map_sum id (\<lambda>r. (key, v') # r) (transform_to_possible_formats_items np_array items))"
  by pat_completeness auto
termination
proof (relation "measure (\<lambda>x. case x of
        Inl (_, data) \<Rightarrow> 2 * size data
      | Inr (_, items) \<Rightarrow> 2 * size_list (size_prod (\<lambda>_. 0) size) items + 1)", goal_cases)
  case 1
  show ?case by simp
next
  case (2 np_array data d)
  have a: "size (asdict_step v) \<le> size v" for v
    by (cases v rule: asdict_step.cases) simp_all
  have b: "size (asarray_step v) \<le> size v" for v
    by (cases v rule: asarray_step.cases) simp_all
  from a [of data] b [of "asdict_step data"] 2(2)
  have "size (PDict d) \<le> size data" by simp
  then show ?case by simp
next
  case 3
  then show ?case by simp
next
  case 4
  then show ?case by simp
qed

declare transform_to_possible_formats.simps [simp del]

text \<open>\<open>transform_on_open\<close>; \<open>bytes.decode\<close> is a parameter \<open>dec\<close>, which may raise.\<close>

definition transform_on_open :: "(string \<Rightarrow> pyerror + string) \<Rightarrow> pyval \<Rightarrow> pyerror + pyval" where
  "transform_on_open dec v = (case v of PBytes b \<Rightarrow> map_sum id PStr (dec b) | _ \<Rightarrow> Inr v)"

section \<open>The writer\<close>

text \<open>
  \<open>save_sub_dict\<close> returns the group as the call leaves it, also when the call raises:
  what was created before the exception stays.  \<open>save_sub_dict_items\<close> is the loop over
  \<open>data.items()\<close>, on the new group \<open>g\<close>.
\<close>

definition is_ndarray_or_list :: "pyval \<Rightarrow> bool" where
  "is_ndarray_or_list data = (case data of PArray _ \<Rightarrow> True | PList _ \<Rightarrow> True | _ \<Rightarrow> False)"

function save_sub_dict :: "h5conv \<Rightarrow> h5group \<Rightarrow> pyval \<Rightarrow> string \<Rightarrow> h5group \<times> (pyerror + unit)"
  and save_sub_dict_items :: "h5conv \<Rightarrow> h5group \<Rightarrow> pydict \<Rightarrow> h5group \<times> (pyerror + unit)"
where
  "save_sub_dict conv grp data key =
     (case asarray_step (asdict_step data) of
        PDict d \<Rightarrow>
          (case create_group grp key of
             Inl err \<Rightarrow> (grp, Inl err)
           | Inr grp' \<Rightarrow>
               (case save_sub_dict_items conv [] d of
                  (g, r) \<Rightarrow> (dict_set grp' key (H5Group g), r)))
      | PNone \<Rightarrow> (grp, Inr ())
      | data' \<Rightarrow>
          (case create_dataset conv grp key data' (is_ndarray_or_list data') of
             Inl err \<Rightarrow> (grp, Inl err)
           | Inr grp' \<Rightarrow> (grp', Inr ())))"
| "save_sub_dict_items conv g [] = (g, Inr ())"
| "save_sub_dict_items conv g ((k, v) # items) =
     (case save_sub_dict conv g v k of
        (g', Inl err) \<Rightarrow> (g', Inl err)
      | (g', Inr _) \<Rightarrow> save_sub_dict_items conv g' items)"
  by pat_completeness auto
termination
proof (relation "measure (\<lambda>x. case x of
        Inl (_, _, data, _) \<Rightarrow> 2 * size data
      | Inr (_, _, items) \<Rightarrow> 2 * size_list (size_prod (\<lambda>_. 0) size) items + 1)", goal_cases)
  case 1
  show ?case by simp
next
  case (2 conv grp data key d grp')
  have a: "size (asdict_step v) \<le> size v" for v
    by (cases v rule: asdict_step.cases) simp_all
  have b: "size (asarray_step v) \<le> size v" for v
    by (cases v rule: asarray_step.cases) simp_all
  from a [of data] b [of "asdict_step data"] 2(1)
  have "size (PDict d) \<le> size data" by simp
  then show ?case by simp
next
  case 3
  then show ?case by simp
next
  case 4
  then show ?case by simp
qed

declare save_sub_dict.simps [simp del]

text \<open>The loop of \<open>save_dict\<close> over \<open>data.items()\<close>, on the open file.\<close>

fun save_dict_items :: "h5conv \<Rightarrow> h5group \<Rightarrow> pydict \<Rightarrow> h5group \<times> (pyerror + unit)" where
  "save_dict_items conv file [] = (file, Inr ())"
| "save_dict_items conv file ((key, v) # items) =
     (let file' = (if key \<in> fst ` set file then group_pop file key else file)
      in if v = PNone then save_dict_items conv file' items
         else case save_sub_dict conv file' v key of
                (file'', Inl err) \<Rightarrow> (file'', Inl err)
              | (file'', Inr _) \<Rightarrow> save_dict_items conv file'' items)"

text \<open>
  \<open>save_dict\<close> returns the file system as the call leaves it, and the exception raised or
  what \<open>os.path.getmtime\<close> returns.  The lock is released on every exit of its scope.
\<close>

definition save_dict :: "h5conv \<Rightarrow> filesystem \<Rightarrow> string \<Rightarrow> pydict \<Rightarrow> filesystem \<times> (pyerror + unit)" where
  "save_dict conv fs filename data =
     (case os_makedirs (os_path_dirname filename) of
        Inl err \<Rightarrow> (fs, Inl err)
      | Inr _ \<Rightarrow>
          (case LockFile_enter fs filename of
             Inl err \<Rightarrow> (fs, Inl err)
           | Inr fs1 \<Rightarrow>
               (case (case h5py_File_a fs1 filename of
                        Inl err \<Rightarrow> (fs1, Inl err)
                      | Inr file \<Rightarrow>
                          (case save_dict_items conv file data of
                             (file', r) \<Rightarrow> (fs1(filename \<mapsto> Hdf5File file'), r))) of
                  (fs2, Inl err) \<Rightarrow> (LockFile_exit fs2 filename, Inl err)
                | (fs2, Inr _) \<Rightarrow>
                    (LockFile_exit fs2 filename,
                     os_path_getmtime (LockFile_exit fs2 filename) filename))))"

section \<open>The reader\<close>

text \<open>The argument \<open>key\<close> of the reader, when it is not \<open>None\<close>: a string or a set of strings.\<close>

datatype key_arg = KeyStr string | KeySet "string set"

text \<open>\<open>key if isinstance(key, set) else set([key])\<close>\<close>

fun key_set :: "key_arg \<Rightarrow> string set" where
  "key_set (KeyStr k) = {k}"
| "key_set (KeySet ks) = ks"

text \<open>
  \<open>open_h5_group\<close>; \<open>open_h5_group_items\<close> is its loop over \<open>group.keys()\<close>, with the set
  \<open>key\<close> (or \<open>None\<close>) and the dict \<open>data\<close> built so far.
\<close>

function open_h5_group ::
    "(string \<Rightarrow> pyerror + string) \<Rightarrow> h5group \<Rightarrow> key_arg option \<Rightarrow> pyerror + pydict"
  and open_h5_group_items ::
    "(string \<Rightarrow> pyerror + string) \<Rightarrow> h5group \<Rightarrow> string set option \<Rightarrow> pydict \<Rightarrow> pyerror + pydict"
where
  "open_h5_group dec grp key = open_h5_group_items dec grp (map_option key_set key) []"
| "open_h5_group_items dec [] key data = Inr data"
| "open_h5_group_items dec ((group_key, value) # rest) key data =
     (if key \<noteq> None \<and> group_key \<notin> the key then open_h5_group_items dec rest key data
      else case value of
             H5Group g \<Rightarrow>
               (case open_h5_group dec g None of
                  Inl err \<Rightarrow> Inl err
                | Inr d \<Rightarrow> open_h5_group_items dec rest key (dict_set data group_key (PDict d)))
           | H5Dataset v gzip \<Rightarrow>
               (case transform_on_open dec v of
                  Inl err \<Rightarrow> Inl err
                | Inr x \<Rightarrow> open_h5_group_items dec rest key (dict_set data group_key x)))"
  by pat_completeness auto
termination
  by (relation "measure (\<lambda>x. case x of
        Inl (_, grp, _) \<Rightarrow> 2 * size_list (size_prod (\<lambda>_. 0) size) grp + 1
      | Inr (_, items, _, _) \<Rightarrow> 2 * size_list (size_prod (\<lambda>_. 0) size) items)") auto

declare open_h5_group.simps [simp del]

definition open_h5 ::
    "(string \<Rightarrow> pyerror + string) \<Rightarrow> filesystem \<Rightarrow> string \<Rightarrow> key_arg option \<Rightarrow> pyerror + pydict" where
  "open_h5 dec fs fullpath key =
     (case h5py_File_r fs fullpath of
        Inl err \<Rightarrow> Inl err
      | Inr file \<Rightarrow> open_h5_group dec file key)"

text \<open>What the loop of \<open>open_h5_group\<close> enters in \<open>data\<close> for a member \<open>value\<close> of the group.\<close>

definition open_h5_value :: "(string \<Rightarrow> pyerror + string) \<Rightarrow> h5node \<Rightarrow> pyerror + pyval" where
  "open_h5_value dec member =
     (case member of
        H5Group g \<Rightarrow> map_sum id PDict (open_h5_group dec g None)
      | H5Dataset v gzip \<Rightarrow> transform_on_open dec v)"

text \<open>
  Instances of \<open>conv\<close> and \<open>dec\<close> for the examples, which use small integers, floats, ASCII
  text and bytes, and flat lists of small integers.  On these, \<open>conv_example\<close> is what
  \<open>h5py\<close> does (an integer is read back as a numpy integer, a float as a numpy float, text
  as bytes, a list as an array) and \<open>dec_example\<close> is what \<open>bytes.decode\<close> does (ASCII
  bytes decode to the same characters).  They are instances for these values only: on any
  other value they raise, whatever \<open>h5py\<close> and \<open>bytes.decode\<close> do.
\<close>

definition ascii :: "string \<Rightarrow> bool" where
  "ascii s = list_all (\<lambda>c. of_char c < (128::nat)) s"

definition int64 :: "pyval \<Rightarrow> bool" where
  "int64 v = (case v of PInt n \<Rightarrow> - (2 ^ 63) \<le> n \<and> n < 2 ^ 63 | _ \<Rightarrow> False)"

definition conv_example :: h5conv where
  "conv_example data gzip =
     (case data of
        PInt n \<Rightarrow> if int64 data \<and> \<not> gzip then Inr (NpInt n) else Inl TypeError
      | PFloat x \<Rightarrow> if gzip then Inl TypeError else Inr (NpFloat x)
      | PStr s \<Rightarrow> if ascii s \<and> \<not> gzip then Inr (PBytes s) else Inl TypeError
      | PBytes s \<Rightarrow> if ascii s \<and> \<not> gzip then Inr (PBytes s) else Inl TypeError
      | PList xs \<Rightarrow> if xs \<noteq> [] \<and> list_all int64 xs then Inr (PArray (PList xs)) else Inl TypeError
      | _ \<Rightarrow> Inl TypeError)"

definition dec_example :: "string \<Rightarrow> pyerror + string" where
  "dec_example b = (if ascii b then Inr b else Inl UnicodeDecodeError)"


section \<open>The rendering of a summary\<close>

text \<open>
  \<open>json.dumps(data, sort_keys=True, indent=4)\<close> on a summary: strings and dicts with
  strings as keys.  A string is written between double quotes, with the escapes of
  \<open>ensure_ascii\<close>; the items of a dict are sorted by their keys and written one per line,
  four spaces deeper than the dict; an empty dict is written \<open>{}\<close>.
\<close>

abbreviation dquote :: char where
  "dquote \<equiv> CHR 0x22"

abbreviation backslash :: char where
  "backslash \<equiv> CHR 0x5C"

abbreviation newline :: char where
  "newline \<equiv> CHR 0x0A"

definition hex_digit :: "nat \<Rightarrow> char" where
  "hex_digit n = ''0123456789abcdef'' ! n"

definition json_escape_char :: "char \<Rightarrow> string" where
  "json_escape_char c =
     (if c = dquote then [backslash, dquote]
      else if c = backslash then [backslash, backslash]
      else if c = newline then [backslash, CHR ''n'']
      else if c = CHR 0x0D then [backslash, CHR ''r'']
      else if c = CHR 0x09 then [backslash, CHR ''t'']
      else if c = CHR 0x08 then [backslash, CHR ''b'']
      else if c = CHR 0x0C then [backslash, CHR ''f'']
      else if (32::nat) \<le> of_char c \<and> of_char c \<le> (126::nat) then [c]
      else [backslash, CHR ''u'', CHR ''0'', CHR ''0'',
            hex_digit (of_char c div 16), hex_digit (of_char c mod 16)])"

definition json_string :: "string \<Rightarrow> string" where
  "json_string s = [dquote] @ concat (map json_escape_char s) @ [dquote]"

definition json_indent :: "nat \<Rightarrow> string" where
  "json_indent level = replicate (4 * level) (CHR '' '')"

function json_value :: "nat \<Rightarrow> summary \<Rightarrow> string"
  and json_items :: "nat \<Rightarrow> (string \<times> summary) list \<Rightarrow> (string \<times> string) list"
where
  "json_value level (SStr s) = json_string s"
| "json_value level (SDict kvs) =
     (if kvs = [] then ''{}''
      else ''{'' @ [newline]
           @ join ('','' @ [newline])
               (map (\<lambda>kr. json_indent (Suc level) @ json_string (fst kr) @ '': '' @ snd kr)
                  (sort_key fst (json_items (Suc level) kvs)))
           @ [newline] @ json_indent level @ ''}'')"
| "json_items level [] = []"
| "json_items level ((k, v) # kvs) = (k, json_value level v) # json_items level kvs"
  by pat_completeness auto
termination
  by (relation "measure (\<lambda>x. case x of
        Inl (_, v) \<Rightarrow> size v
      | Inr (_, kvs) \<Rightarrow> size_list (size_prod (\<lambda>_. 0) size) kvs)") auto

definition dict_to_json_format_str :: "(string \<times> summary) list \<Rightarrow> string" where
  "dict_to_json_format_str data = json_value 0 (SDict data)"

text \<open>
  \<open>s.replace(old, new)\<close>: the occurrences of \<open>old\<close> are found from the left and do not
  overlap; with an empty \<open>old\<close>, \<open>new\<close> goes before every character and at the end.
\<close>

function py_replace :: "string \<Rightarrow> string \<Rightarrow> string \<Rightarrow> string" where
  "py_replace old new s =
     (if old = [] then new @ concat (map (\<lambda>c. c # new) s)
      else if s = [] then []
      else if take (length old) s = old then new @ py_replace old new (drop (length old) s)
      else hd s # py_replace old new (tl s))"
  by pat_completeness auto
termination
  by (relation "measure (\<lambda>(old, new, s). length s)") auto

declare py_replace.simps [simp del]

text \<open>
  \<open>output_dict_structure\<close>, with the summary at the default level 3.  \<open>annotate\<close> is the
  loop over \<open>additional_info.items()\<close>; \<open>key_colon key\<close> is \<open>f'"{key}":'\<close> and
  \<open>key_info_colon key info\<close> is \<open>f'"{key}"{value}:'\<close>.
\<close>

definition key_colon :: "string \<Rightarrow> string" where
  "key_colon key = [dquote] @ key @ [dquote] @ '':''"

definition key_info_colon :: "string \<Rightarrow> string \<Rightarrow> string" where
  "key_info_colon key info = [dquote] @ key @ [dquote] @ info @ '':''"

fun annotate :: "string \<Rightarrow> (string \<times> string) list \<Rightarrow> string" where
  "annotate dict_str [] = dict_str"
| "annotate dict_str ((key, info) # rest) =
     annotate (py_replace (key_colon key) (key_info_colon key info) dict_str) rest"

definition output_dict_structure ::
    "(pyval \<Rightarrow> pyerror + nat list) \<Rightarrow> pydict \<Rightarrow> (string \<times> string) list option
       \<Rightarrow> pyerror + string" where
  "output_dict_structure shp data additional_info =
     (case get_dict_structure shp data 3 of
        Inl err \<Rightarrow> Inl err
      | Inr structure \<Rightarrow>
          Inr (case additional_info of
                 None \<Rightarrow> dict_to_json_format_str structure
               | Some info \<Rightarrow>
                   if info = [] then dict_to_json_format_str structure
                   else annotate (dict_to_json_format_str structure) info))"

text \<open>\<open>old in s\<close>: the text \<open>old\<close> occurs in \<open>s\<close>.\<close>

fun occurs :: "string \<Rightarrow> string \<Rightarrow> bool" where
  "occurs old [] = (old = [])"
| "occurs old (c # s) = (take (length old) (c # s) = old \<or> occurs old s)"


section \<open>What a write stores\<close>

text \<open>
  The member that the writer stores for a value, stated on the value alone.  The methods
  \<open>_asdict\<close> and \<open>asarray\<close> are resolved first, whatever the attribute
  \<open>__should_not_be_converted__\<close>.  Then a dict is stored as a group, whose members are what
  is stored for its values, each under its key, in the order of the names; \<open>None\<close> is not
  stored; an array or a list is stored as a dataset with compression, and any other value
  as a dataset without.  \<open>stored_items\<close> lists what is stored for the items of a dict, in
  the order of the items.
\<close>

function stored :: "h5conv \<Rightarrow> pyval \<Rightarrow> pyerror + h5node option"
  and stored_items :: "h5conv \<Rightarrow> pydict \<Rightarrow> pyerror + h5group"
where
  "stored conv data =
     (case asarray_step (asdict_step data) of
        PDict d \<Rightarrow> map_sum id (\<lambda>ns. Some (H5Group (sort_key fst ns))) (stored_items conv d)
      | PNone \<Rightarrow> Inr None
      | PArray a \<Rightarrow> map_sum id (\<lambda>v. Some (H5Dataset v True)) (conv (PArray a) True)
      | PList xs \<Rightarrow> map_sum id (\<lambda>v. Some (H5Dataset v True)) (conv (PList xs) True)
      | data' \<Rightarrow> map_sum id (\<lambda>v. Some (H5Dataset v False)) (conv data' False))"
| "stored_items conv [] = Inr []"
| "stored_items conv ((k, v) # items) =
     (case stored conv v of
        Inl err \<Rightarrow> Inl err
      | Inr None \<Rightarrow> stored_items conv items
      | Inr (Some n) \<Rightarrow> map_sum id (\<lambda>ns. (k, n) # ns) (stored_items conv items))"
  by pat_completeness auto
termination
proof (relation "measure (\<lambda>x. case x of
        Inl (_, data) \<Rightarrow> 2 * size data
      | Inr (_, items) \<Rightarrow> 2 * size_list (size_prod (\<lambda>_. 0) size) items + 1)", goal_cases)
  case 1
  show ?case by simp
next
  case (2 conv data d)
  have a: "size (asdict_step v) \<le> size v" for v
    by (cases v rule: asdict_step.cases) simp_all
  have b: "size (asarray_step v) \<le> size v" for v
    by (cases v rule: asarray_step.cases) simp_all
  from a [of data] b [of "asdict_step data"] 2(1)
  have "size (PDict d) \<le> size data" by simp
  then show ?case by simp
next
  case 3
  then show ?case by simp
next
  case 4
  then show ?case by simp
next
  case 5
  then show ?case by simp
qed

declare stored.simps [simp del]

text \<open>
  The dicts that the writer meets in a value have distinct keys, as every dict has, and
  their keys are plain names.
\<close>

function keys_ok :: "pyval \<Rightarrow> bool"
  and keys_ok_items :: "pydict \<Rightarrow> bool"
where
  "keys_ok data =
     (case asarray_step (asdict_step data) of
        PDict d \<Rightarrow> distinct (map fst d) \<and> keys_ok_items d
      | _ \<Rightarrow> True)"
| "keys_ok_items [] = True"
| "keys_ok_items ((k, v) # items) = (plain_name k \<and> keys_ok v \<and> keys_ok_items items)"
  by pat_completeness auto
termination
proof (relation "measure (\<lambda>x. case x of
        Inl data \<Rightarrow> 2 * size data
      | Inr items \<Rightarrow> 2 * size_list (size_prod (\<lambda>_. 0) size) items + 1)", goal_cases)
  case 1
  show ?case by simp
next
  case (2 data d)
  have a: "size (asdict_step v) \<le> size v" for v
    by (cases v rule: asdict_step.cases) simp_all
  have b: "size (asarray_step v) \<le> size v" for v
    by (cases v rule: asarray_step.cases) simp_all
  from a [of data] b [of "asdict_step data"] 2(1)
  have "size (PDict d) \<le> size data" by simp
  then show ?case by simp
next
  case 3
  then show ?case by simp
next
  case 4
  then show ?case by simp
qed

declare keys_ok.simps [simp del]

text \<open>
  An example: an object with the attribute \<open>__should_not_be_converted__\<close> set to \<open>True\<close>
  and a method \<open>_asdict\<close> that returns \<open>{'x': 1}\<close>.
\<close>

definition opaque_example :: pyval where
  "opaque_example = PObj ''C'' (Some (PBool True)) (Some (PDict [(''x'', PInt 1)])) None"

section \<open>Evaluation rules\<close>

text \<open>The recursive equations as conditional rules, which apply to numerals only.\<close>

lemma str_of_nat_digit: "n < 10 \<Longrightarrow> str_of_nat n = [digit_char n]"
  by (subst str_of_nat.simps) simp

lemma str_of_nat_step:
  "10 \<le> n \<Longrightarrow> str_of_nat n = str_of_nat (n div 10) @ [digit_char (n mod 10)]"
  by (subst str_of_nat.simps) simp

lemma bit_length_zero: "bit_length 0 = 0"
  by (subst bit_length.simps) simp

lemma bit_length_step: "0 < n \<Longrightarrow> bit_length n = Suc (bit_length (n div 2))"
  by (subst bit_length.simps) simp

lemma exp10_up_step:
  "0 < d \<Longrightarrow> 10 * 10 ^ k * d \<le> n \<Longrightarrow> exp10_up n d k = exp10_up n d (Suc k)"
  by (subst exp10_up.simps) simp

lemma exp10_up_stop: "n < 10 * 10 ^ k * d \<Longrightarrow> exp10_up n d k = k"
  by (subst exp10_up.simps) simp

lemma exp10_down_step:
  "0 < n \<Longrightarrow> n * 10 ^ k < d \<Longrightarrow> exp10_down n d k = exp10_down n d (Suc k)"
  by (subst exp10_down.simps) simp

lemma exp10_down_stop: "d \<le> n * 10 ^ k \<Longrightarrow> exp10_down n d k = k"
  by (subst exp10_down.simps) simp

lemma zero_pad_3:
  "zero_pad 3 [a] = [CHR ''0'', CHR ''0'', a]"
  "zero_pad 3 [a, b] = [CHR ''0'', a, b]"
  "zero_pad 3 [a, b, c] = [a, b, c]"
  by (simp_all add: zero_pad_def numeral_2_eq_2 numeral_3_eq_3)

lemma zero_pad_2:
  "zero_pad 2 [a] = [CHR ''0'', a]"
  "zero_pad 2 [a, b] = [a, b]"
  "zero_pad 2 [a, b, c] = [a, b, c]"
  by (simp_all add: zero_pad_def numeral_2_eq_2)

lemmas str_eval =
  str_of_nat_digit str_of_nat_step digit_char_def zero_pad_2 zero_pad_3

lemma sci3_5: "sci3 (5, Suc 0) = ''5.000e+00''"
  apply (simp only: sci3_def Let_def fst_conv snd_conv)
  apply (simp add: exp10_up_stop)
  apply (simp add: round_half_even_def)
  apply (simp add: str_eval)
  done

lemma sci3_005: "sci3 (3602879701896397, 72057594037927936) = ''5.000e-02''"
  apply (simp only: sci3_def Let_def fst_conv snd_conv)
  apply (simp add: exp10_down_step exp10_down_stop)
  apply (simp add: round_half_even_def)
  apply (simp add: str_eval)
  done

lemma fixed3_5: "fixed3 (5, Suc 0) = ''5.000''"
  apply (simp only: fixed3_def Let_def fst_conv snd_conv)
  apply (simp add: round_half_even_def)
  apply (simp add: str_eval)
  done

lemma fixed3_12345: "fixed3 (5559693739988877, 4503599627370496) = ''1.234''"
  apply (simp only: fixed3_def Let_def fst_conv snd_conv)
  apply (simp add: round_half_even_def)
  apply (simp add: str_eval)
  done

lemma format_0f_bool: "format_0f 1 = Inr ''1''" "format_0f 0 = Inr ''0''"
  by (simp_all add: format_0f_def int_to_float_def bit_length_step bit_length_zero Let_def str_eval)

lemma format_3e_minus5: "format_3e (Finite (- 5) 0) = ''-5.000e+00''"
  using sci3_5 by (simp add: magnitude_def)

lemma format_3f_minus5: "format_3f (Finite (- 5) 0) = ''-5.000''"
  using fixed3_5 by (simp add: magnitude_def)

lemma format_3e_005: "format_3e (Finite 3602879701896397 (- 56)) = ''5.000e-02''"
  using sci3_005 by (simp add: magnitude_def)

lemma format_3f_12345: "format_3f (Finite 5559693739988877 (- 52)) = ''1.234''"
  using fixed3_12345 by (simp add: magnitude_def)

lemma in_fixed_range_examples:
  "\<not> in_fixed_range (Finite (- 5) 0)"
  "in_fixed_range (Finite 5 0)"
  "in_fixed_range (Finite 5559693739988877 (- 52))"
  "\<not> in_fixed_range (Finite 3602879701896397 (- 56))"
  by (simp_all add: in_fixed_range_def point_one_def dyadic_le_def)

section \<open>The summarizer: what the loop returns\<close>

lemma dict_set_fresh: "k \<notin> fst ` set acc \<Longrightarrow> dict_set acc k v = acc @ [(k, v)]"
  by (induction acc) auto

lemma get_dict_structure_items_Inr:
  assumes "get_dict_structure_items shp items level acc = Inr r"
    and "distinct (map fst items)"
    and "fst ` set items \<inter> fst ` set acc = {}"
  shows "\<exists>descs. r = acc @ descs \<and>
           list_all2 (\<lambda>kv ks. fst ks = fst kv \<and>
             get_dict_structure_value shp (snd kv) level = Inr (snd ks)) items descs"
  using assms
proof (induction items arbitrary: acc r)
  case Nil
  then show ?case by simp
next
  case (Cons kv items)
  obtain k v where kv: "kv = (k, v)" by (cases kv)
  from Cons.prems(1) kv obtain s where
    s: "get_dict_structure_value shp v level = Inr s"
    and rest: "get_dict_structure_items shp items level (dict_set acc k s) = Inr r"
    by (auto split: sum.splits)
  from Cons.prems(3) kv have fresh: "k \<notin> fst ` set acc" by auto
  then have upd: "dict_set acc k s = acc @ [(k, s)]" by (rule dict_set_fresh)
  from Cons.prems(2) kv have d: "distinct (map fst items)" and kn: "k \<notin> fst ` set items"
    by auto
  from Cons.prems(3) kn have disj: "fst ` set items \<inter> fst ` set (acc @ [(k, s)]) = {}"
    by auto
  from rest upd have rest': "get_dict_structure_items shp items level (acc @ [(k, s)]) = Inr r"
    by simp
  from Cons.IH [OF rest' d disj] obtain descs where
    "r = (acc @ [(k, s)]) @ descs"
    and "list_all2 (\<lambda>kv ks. fst ks = fst kv \<and>
           get_dict_structure_value shp (snd kv) level = Inr (snd ks)) items descs"
    by blast
  with s kv have "r = acc @ (k, s) # descs"
    and "list_all2 (\<lambda>kv ks. fst ks = fst kv \<and>
           get_dict_structure_value shp (snd kv) level = Inr (snd ks)) (kv # items) ((k, s) # descs)"
    by simp_all
  then show ?case by blast
qed

lemma get_dict_structure_Inr:
  assumes "get_dict_structure shp d level = Inr s" and "distinct (map fst d)"
  shows "list_all2 (\<lambda>kv ks. fst ks = fst kv \<and>
           get_dict_structure_value shp (snd kv) level = Inr (snd ks)) d s"
  using get_dict_structure_items_Inr [of shp d level "[]" s] assms
  by (simp add: get_dict_structure_def)

lemma described_keys:
  assumes "list_all2 (\<lambda>kv ks. fst ks = fst kv \<and> P (snd kv) (snd ks)) d s"
  shows "map fst s = map fst d"
  using assms by (induction rule: list_all2_induct) auto

lemma described_lookup:
  assumes "list_all2 (\<lambda>kv ks. fst ks = fst kv \<and> P (snd kv) (snd ks)) d s"
    and "distinct (map fst d)" and "(k, v) \<in> set d"
  shows "\<exists>x. P v x \<and> map_of s k = Some x"
  using assms
proof (induction rule: list_all2_induct)
  case Nil
  then show ?case by simp
next
  case (Cons kv d ks s)
  obtain k' v' where kv: "kv = (k', v')" by (cases kv)
  obtain k'' x' where ks: "ks = (k'', x')" by (cases ks)
  from Cons.hyps(1) kv ks have same: "k'' = k'" and P: "P v' x'" by simp_all
  from Cons.prems(1) kv have fresh: "k' \<notin> fst ` set d" and dist: "distinct (map fst d)"
    by simp_all
  show ?case
  proof (cases "(k, v) = (k', v')")
    case True
    with P same ks show ?thesis by simp
  next
    case False
    with Cons.prems(2) kv have mem: "(k, v) \<in> set d" by auto
    then have "k \<in> fst ` set d" by force
    with fresh have "k \<noteq> k'" by blast
    moreover from Cons.IH [OF dist mem] obtain x where "P v x" and "map_of s k = Some x"
      by blast
    ultimately show ?thesis using same ks by simp
  qed
qed

lemma get_dict_structure_keys:
  "get_dict_structure shp d level = Inr s \<Longrightarrow> distinct (map fst d) \<Longrightarrow> map fst s = map fst d"
  by (rule described_keys [OF get_dict_structure_Inr])

lemma get_dict_structure_lookup:
  assumes "get_dict_structure shp d level = Inr s" and "distinct (map fst d)"
    and "(k, v) \<in> set d"
  shows "\<exists>x. get_dict_structure_value shp v level = Inr x \<and> map_of s k = Some x"
  by (rule described_lookup [OF get_dict_structure_Inr [OF assms(1,2)] assms(2,3)])


section \<open>The summarizer: one value\<close>

lemma value_dict:
  "get_dict_structure_value shp (PDict d) level =
     (if level \<noteq> 0 then
        (case (if length d \<noteq> 0
               then map_sum id SDict (get_dict_structure_items shp d (level - 1) [])
               else Inr (SStr ''empty dict'')) of
           Inl err \<Rightarrow> Inl err
         | Inr internal_structure \<Rightarrow>
             Inr (if 5 < py_len internal_structure then SStr ''variable of type dict''
                  else internal_structure))
      else Inr (SStr ''variable of type dict''))"
  by (simp add: get_dict_structure_value.simps)

lemma value_bool:
  "get_dict_structure_value shp (PBool b) level =
     map_sum id (\<lambda>str. SStr (str @ '' (type : bool)'')) (format_0f (if b then 1 else 0))"
  by (simp add: get_dict_structure_value.simps)

lemma value_float:
  "get_dict_structure_value shp (PFloat x) level =
     Inr (SStr ((if in_fixed_range x then format_3f x else format_3e x) @ '' (type : float)''))"
  by (simp add: get_dict_structure_value.simps)

lemma value_str:
  "get_dict_structure_value shp (PStr x) level = Inr (SStr ''variable of type str'')"
  by (simp add: get_dict_structure_value.simps)

lemma value_big_dict:
  assumes "get_dict_structure_value shp (PDict v) level = Inr x"
    and "distinct (map fst v)" and "5 < length v"
  shows "x = SStr ''variable of type dict''"
proof (cases "level = 0")
  case True
  with assms(1) show ?thesis by (simp add: value_dict)
next
  case False
  from assms(3) have ne: "length v \<noteq> 0" by (cases v) simp_all
  from assms(1) False ne obtain inner where
    inner: "get_dict_structure shp v (level - 1) = Inr inner"
    and x: "x = (if 5 < length inner then SStr ''variable of type dict'' else SDict inner)"
    by (cases "get_dict_structure_items shp v (level - 1) []")
      (simp_all add: value_dict get_dict_structure_def)
  from get_dict_structure_keys [OF inner assms(2)] have "length inner = length v"
    by (metis length_map)
  with x assms(3) show ?thesis by simp
qed

lemma negative_not_in_fixed_range:
  assumes "m < 0"
  shows "\<not> in_fixed_range (Finite m e)"
proof -
  have neg: "m * 2 ^ nat (e - min (- 55) e) < 0"
    using assms by (simp add: mult_less_0_iff)
  have pos: "(0::int) < 3602879701896397 * 2 ^ nat (- 55 - min (- 55) e)"
    by simp
  from neg pos
  have "\<not> 3602879701896397 * 2 ^ nat (- 55 - min (- 55) e) \<le> m * 2 ^ nat (e - min (- 55) e)"
    by (simp only: not_le)
  then have "\<not> dyadic_le 3602879701896397 (- 55) m e"
    by (simp add: dyadic_le_def Let_def)
  then show ?thesis by (simp add: in_fixed_range_def point_one_def)
qed

lemma six_keys_level_3:
  "get_dict_structure np_shape six_keys 3 =
     Inr [(''a'', SStr ''variable of type str''), (''b'', SStr ''variable of type str''),
          (''c'', SStr ''variable of type str''), (''d'', SStr ''variable of type str''),
          (''e'', SStr ''variable of type str''), (''f'', SStr ''variable of type dict'')]"
  by (simp add: six_keys_def get_dict_structure_def value_str value_dict)

lemma six_keys_level_0:
  "get_dict_structure np_shape six_keys 0 =
     Inr [(''a'', SStr ''variable of type str''), (''b'', SStr ''variable of type str''),
          (''c'', SStr ''variable of type str''), (''d'', SStr ''variable of type str''),
          (''e'', SStr ''variable of type str''), (''f'', SStr ''variable of type dict'')]"
  by (simp add: six_keys_def get_dict_structure_def value_str value_dict)

section \<open>The claims on the summarizer\<close>

text \<open>
  C5.  For a dict with 6 keys, whenever \<open>get_dict_structure\<close> returns at the default
  level 3, the summary describes each of the 6 top-level keys, in their order (the entry
  level is never collapsed), and a value that is itself a dict with 6 keys is described by
  the string "variable of type dict"; at level 0 every value that is a dict is described
  by that string, whatever its size.
\<close>

theorem summarize_collapse:
  assumes "distinct (map fst d)" and "length d = 6"
  shows "(get_dict_structure shp d 3 = Inr s \<longrightarrow>
            map fst s = map fst d \<and> length s = 6 \<and>
            (\<forall>k v. (k, PDict v) \<in> set d \<and> distinct (map fst v) \<and> length v = 6 \<longrightarrow>
               map_of s k = Some (SStr ''variable of type dict''))) \<and>
         (get_dict_structure shp d 0 = Inr s0 \<longrightarrow>
            (\<forall>k v. (k, PDict v) \<in> set d \<longrightarrow>
               map_of s0 k = Some (SStr ''variable of type dict'')))"
proof (intro conjI impI allI)
  assume r: "get_dict_structure shp d 3 = Inr s"
  from get_dict_structure_keys [OF r assms(1)] show keys: "map fst s = map fst d" .
  then have "length s = length d" by (metis length_map)
  with assms(2) show "length s = 6" by simp
next
  fix k v
  assume r: "get_dict_structure shp d 3 = Inr s"
    and kv: "(k, PDict v) \<in> set d \<and> distinct (map fst v) \<and> length v = 6"
  from kv have mem: "(k, PDict v) \<in> set d" by simp
  from get_dict_structure_lookup [OF r assms(1) mem] obtain x where
    x: "get_dict_structure_value shp (PDict v) 3 = Inr x" and look: "map_of s k = Some x"
    by blast
  from kv have "distinct (map fst v)" and "5 < length v" by simp_all
  from value_big_dict [OF x this] look
  show "map_of s k = Some (SStr ''variable of type dict'')" by simp
next
  fix k v
  assume r: "get_dict_structure shp d 0 = Inr s0" and mem: "(k, PDict v) \<in> set d"
  from get_dict_structure_lookup [OF r assms(1) mem] obtain x where
    x: "get_dict_structure_value shp (PDict v) 0 = Inr x" and look: "map_of s0 k = Some x"
    by blast
  from x have "x = SStr ''variable of type dict''" by (simp add: value_dict)
  with look show "map_of s0 k = Some (SStr ''variable of type dict'')" by simp
qed

theorem summarize_collapse_witness:
  "distinct (map fst six_keys) \<and> length six_keys = 6 \<and>
   (\<exists>s. get_dict_structure np_shape six_keys 3 = Inr s \<and>
        map fst s = map fst six_keys \<and>
        map_of s ''f'' = Some (SStr ''variable of type dict'')) \<and>
   (\<exists>s0. get_dict_structure np_shape six_keys 0 = Inr s0 \<and>
        map_of s0 ''f'' = Some (SStr ''variable of type dict''))"
proof -
  have d: "distinct (map fst six_keys)" and l: "length six_keys = 6"
    by (simp_all add: six_keys_def)
  obtain v where v: "v = [(''1'', PStr ''x''), (''2'', PStr ''x''), (''3'', PStr ''x''),
                    (''4'', PStr ''x''), (''5'', PStr ''x''), (''6'', PStr ''x'')]"
    by simp
  have mem: "(''f'', PDict v) \<in> set six_keys"
    by (simp add: six_keys_def v)
  have inner: "distinct (map fst v)" "length v = 6"
    by (simp_all add: v)
  obtain s where s: "get_dict_structure np_shape six_keys 3 = Inr s"
    using six_keys_level_3 by simp
  obtain s0 where s0: "get_dict_structure np_shape six_keys 0 = Inr s0"
    using six_keys_level_0 by simp
  from summarize_collapse [OF d l, of np_shape s s0] s s0
  have keys: "map fst s = map fst six_keys"
    and three: "\<forall>k v. (k, PDict v) \<in> set six_keys \<and> distinct (map fst v) \<and> length v = 6 \<longrightarrow>
                 map_of s k = Some (SStr ''variable of type dict'')"
    and zero: "\<forall>k v. (k, PDict v) \<in> set six_keys \<longrightarrow>
                 map_of s0 k = Some (SStr ''variable of type dict'')"
    by simp_all
  from three mem inner have "map_of s ''f'' = Some (SStr ''variable of type dict'')"
    by blast
  moreover from zero mem have "map_of s0 ''f'' = Some (SStr ''variable of type dict'')"
    by blast
  ultimately show ?thesis using d l s s0 keys by blast
qed

text \<open>
  C6.  The code describes an empty dict by "variable of type dict", not by "empty dict":
  the string "empty dict" is put in \<open>internal_structure\<close> and then measured by \<open>len\<close>, and
  its 10 characters are more than 5.
\<close>

theorem empty_dict_summary:
  "get_dict_structure np_shape [(''k'', PDict [])] 3 =
     Inr [(''k'', SStr ''variable of type dict'')]"
  by (simp add: get_dict_structure_def value_dict)

text \<open>
  C7, as the code has it.  A float at a key is described by its three-decimal format when
  \<open>.1 <= v <= 100\<close> holds of the value itself (not of its magnitude) and by the format
  \<open>.3e\<close> (one digit, three decimals and the exponent) otherwise, followed by
  " (type : float)"; so every negative float is described in scientific notation.
\<close>

theorem float_format_choice:
  assumes "get_dict_structure shp d level = Inr s" and "distinct (map fst d)"
    and "(k, PFloat x) \<in> set d"
  shows "map_of s k =
           Some (SStr ((if float_le point_one x \<and> float_le x (Finite 100 0)
                        then format_3f x else format_3e x) @ '' (type : float)'')) \<and>
         (\<forall>m e. x = Finite m e \<and> m < 0 \<longrightarrow>
            map_of s k = Some (SStr (format_3e x @ '' (type : float)'')))"
proof -
  from get_dict_structure_lookup [OF assms] obtain y where
    y: "get_dict_structure_value shp (PFloat x) level = Inr y" and look: "map_of s k = Some y"
    by blast
  from y have y': "y = SStr ((if in_fixed_range x then format_3f x else format_3e x)
                      @ '' (type : float)'')"
    by (simp add: value_float)
  with look have first: "map_of s k =
           Some (SStr ((if float_le point_one x \<and> float_le x (Finite 100 0)
                        then format_3f x else format_3e x) @ '' (type : float)''))"
    by (simp add: in_fixed_range_def)
  have "map_of s k = Some (SStr (format_3e x @ '' (type : float)''))"
    if "x = Finite m e \<and> m < 0" for m e
    using that y' look negative_not_in_fixed_range [of m e] by simp
  with first show ?thesis by blast
qed

theorem float_format_choice_witness:
  "get_dict_structure np_shape [(''v'', PFloat (Finite (- 5) 0))] 3 =
     Inr [(''v'', SStr ''-5.000e+00 (type : float)'')] \<and>
   map_of [(''v'', SStr ''-5.000e+00 (type : float)'')] ''v'' =
     Some (SStr (format_3e (Finite (- 5) 0) @ '' (type : float)''))"
proof -
  have ev: "get_dict_structure np_shape [(''v'', PFloat (Finite (- 5) 0))] 3 =
     Inr [(''v'', SStr ''-5.000e+00 (type : float)'')]"
    using in_fixed_range_examples(1)
    by (simp add: get_dict_structure_def value_float format_3e_minus5 del: format_3e.simps)
  have d: "distinct (map fst [(''v'', PFloat (Finite (- 5) 0))])" by simp
  have m: "(''v'', PFloat (Finite (- 5) 0)) \<in> set [(''v'', PFloat (Finite (- 5) 0))]"
    by simp
  from float_format_choice [OF ev d m] ev show ?thesis by simp
qed

text \<open>
  The claim C7 as stated fails: \<open>-5.0\<close> has its magnitude in [0.1, 100] and is described
  in scientific notation, where the number has four significant digits; and the double
  \<open>1.2345\<close> is described as "1.234".
\<close>

theorem float_format_counterexample:
  "in_fixed_range (Finite 5 0) \<and>
   get_dict_structure np_shape [(''v'', PFloat (Finite (- 5) 0))] 3 =
     Inr [(''v'', SStr ''-5.000e+00 (type : float)'')] \<and>
   format_3f (Finite (- 5) 0) = ''-5.000'' \<and>
   get_dict_structure np_shape [(''v'', PFloat (Finite 5559693739988877 (- 52)))] 3 =
     Inr [(''v'', SStr ''1.234 (type : float)'')]"
  using in_fixed_range_examples
  by (simp add: get_dict_structure_def value_float format_3e_minus5 format_3f_minus5
      format_3f_12345 del: format_3e.simps format_3f.simps)

text \<open>
  C10.  A \<open>bool\<close> at a key goes through the integer branch: it is described as "1" or "0",
  formatted with no decimals, followed by " (type : bool)".
\<close>

theorem bool_summary:
  assumes "get_dict_structure shp d level = Inr s" and "distinct (map fst d)"
    and "(k, PBool b) \<in> set d"
  shows "map_of s k = Some (SStr ((if b then ''1'' else ''0'') @ '' (type : bool)''))"
proof -
  from get_dict_structure_lookup [OF assms] obtain y where
    y: "get_dict_structure_value shp (PBool b) level = Inr y" and look: "map_of s k = Some y"
    by blast
  from y have "y = SStr ((if b then ''1'' else ''0'') @ '' (type : bool)'')"
    by (cases b) (simp_all add: value_bool format_0f_bool)
  with look show ?thesis by simp
qed

theorem bool_summary_witness:
  "get_dict_structure np_shape [(''flag'', PBool True)] 3 =
     Inr [(''flag'', SStr ''1 (type : bool)'')] \<and>
   map_of [(''flag'', SStr ''1 (type : bool)'')] ''flag'' = Some (SStr ''1 (type : bool)'')"
proof -
  have ev: "get_dict_structure np_shape [(''flag'', PBool True)] 3 =
     Inr [(''flag'', SStr ''1 (type : bool)'')]"
    by (simp add: get_dict_structure_def value_bool format_0f_bool)
  have d: "distinct (map fst [(''flag'', PBool True)])" by simp
  have m: "(''flag'', PBool True) \<in> set [(''flag'', PBool True)]" by simp
  from bool_summary [OF ev d m] ev show ?thesis by simp
qed

section \<open>The lock\<close>

lemma example_path:
  "os_path_dirname ''d/f.h5'' \<noteq> []" "lock_filename ''d/f.h5'' = ''d/f.lock''"
  by (simp_all add: os_path_dirname_def os_path_basename_def lock_filename_def
      splitext_root_def)

lemma bare_path:
  "os_path_dirname ''f.h5'' = []" "lock_filename ''f.h5'' = ''f.lock''"
  by (simp_all add: os_path_dirname_def os_path_basename_def lock_filename_def
      splitext_root_def)

text \<open>On a path with no directory part, \<open>save_dict\<close> raises before it looks at any file.\<close>

lemma save_dict_no_directory:
  "os_path_dirname filename = [] \<Longrightarrow>
     save_dict conv fs filename data = (fs, Inl FileNotFoundError)"
  by (simp add: save_dict_def os_makedirs_def)

lemma lock_released: "LockFile_exit fs2 filename (lock_filename filename) = None"
  by (simp add: LockFile_exit_def)

text \<open>
  On a path with a directory part, a write attempted while the lock file of the path
  exists raises \<open>FileLockedError\<close> and leaves every file as it was.  On every path, a
  write that found no lock file leaves no lock file, whether it returns or raises, and the
  lock can be taken again.
\<close>

lemma lock_scope:
  "(os_path_dirname filename \<noteq> [] \<and> fs (lock_filename filename) \<noteq> None \<longrightarrow>
      save_dict conv fs filename data = (fs, Inl FileLockedError)) \<and>
   (fs (lock_filename filename) = None \<longrightarrow>
      fst (save_dict conv fs filename data) (lock_filename filename) = None \<and>
      (\<exists>fs'. LockFile_enter (fst (save_dict conv fs filename data)) filename = Inr fs'))"
proof (intro conjI impI)
  assume "os_path_dirname filename \<noteq> [] \<and> fs (lock_filename filename) \<noteq> None"
  then show "save_dict conv fs filename data = (fs, Inl FileLockedError)"
    by (simp add: save_dict_def os_makedirs_def LockFile_enter_def)
next
  assume free: "fs (lock_filename filename) = None"
  show absent: "fst (save_dict conv fs filename data) (lock_filename filename) = None"
  proof (cases "os_path_dirname filename = []")
    case True
    with free show ?thesis by (simp add: save_dict_no_directory)
  next
    case False
    with free show ?thesis
      by (simp add: save_dict_def os_makedirs_def LockFile_enter_def lock_released
          split: prod.splits sum.splits)
  qed
  then show "\<exists>fs'. LockFile_enter (fst (save_dict conv fs filename data)) filename = Inr fs'"
    by (simp add: LockFile_enter_def)
qed

text \<open>
  C3.  The write attempted on the path \<open>f.h5\<close>, which has no directory part, while its
  lock file \<open>f.lock\<close> exists raises \<open>FileNotFoundError\<close>, not \<open>FileLockedError\<close>:
  \<open>os.makedirs('')\<close> raises before the lock is looked at.  On the path \<open>d/f.h5\<close> the
  same write, attempted while the lock file \<open>d/f.lock\<close> exists, raises
  \<open>FileLockedError\<close>.  Both leave every file as it was.
\<close>

theorem locked_write_bare_path:
  "os_path_dirname ''f.h5'' = [] \<and> lock_filename ''f.h5'' = ''f.lock'' \<and>
   save_dict conv_example [''f.lock'' \<mapsto> EmptyFile] ''f.h5'' [(''k'', PInt 1)] =
     ([''f.lock'' \<mapsto> EmptyFile], Inl FileNotFoundError) \<and>
   lock_filename ''d/f.h5'' = ''d/f.lock'' \<and>
   save_dict conv_example [''d/f.lock'' \<mapsto> EmptyFile] ''d/f.h5'' [(''k'', PInt 1)] =
     ([''d/f.lock'' \<mapsto> EmptyFile], Inl FileLockedError)"
  using example_path bare_path
  by (simp add: save_dict_def os_makedirs_def LockFile_enter_def)

text \<open>
  C4.  On the container \<open>f.h5\<close>, whose path has no directory part, the write of
  \<open>{'k': None}\<close> raises \<open>FileNotFoundError\<close> and the key \<open>k\<close> stays: \<open>os.makedirs('')\<close>
  raises before the container is opened.  On the container \<open>d/f.h5\<close> the same write
  returns and leaves the container without the key, and the write of \<open>{'j': None}\<close>, for a
  key that the container does not have, returns and leaves the container as it was.
\<close>

theorem delete_by_None_bare_path:
  "save_dict conv_example [''f.h5'' \<mapsto> Hdf5File [(''k'', H5Dataset (NpInt 1) False)]]
     ''f.h5'' [(''k'', PNone)] =
     ([''f.h5'' \<mapsto> Hdf5File [(''k'', H5Dataset (NpInt 1) False)]], Inl FileNotFoundError) \<and>
   save_dict conv_example [''d/f.h5'' \<mapsto> Hdf5File [(''k'', H5Dataset (NpInt 1) False)]]
     ''d/f.h5'' [(''k'', PNone)] =
     ([''d/f.h5'' \<mapsto> Hdf5File []], Inr ()) \<and>
   save_dict conv_example [''d/f.h5'' \<mapsto> Hdf5File [(''k'', H5Dataset (NpInt 1) False)]]
     ''d/f.h5'' [(''j'', PNone)] =
     ([''d/f.h5'' \<mapsto> Hdf5File [(''k'', H5Dataset (NpInt 1) False)]], Inr ())"
  using example_path bare_path
  by (simp add: save_dict_def os_makedirs_def LockFile_enter_def LockFile_exit_def
      h5py_File_a_def os_path_getmtime_def group_pop_def fun_eq_iff)

section \<open>The reader\<close>

lemma open_h5_group_items_filter:
  "open_h5_group_items dec items (Some ks) data =
     open_h5_group_items dec (filter (\<lambda>kn. fst kn \<in> ks) items) None data"
  by (induction items arbitrary: data) (auto split: h5node.splits sum.splits)

lemma open_h5_group_items_Inr:
  assumes "open_h5_group_items dec items None acc = Inr r"
    and "distinct (map fst items)"
    and "fst ` set items \<inter> fst ` set acc = {}"
  shows "\<exists>descs. r = acc @ descs \<and>
           list_all2 (\<lambda>kn kv. fst kv = fst kn \<and>
             open_h5_value dec (snd kn) = Inr (snd kv)) items descs"
  using assms
proof (induction items arbitrary: acc r)
  case Nil
  then show ?case by simp
next
  case (Cons kn items)
  obtain k n where kn: "kn = (k, n)" by (cases kn)
  from Cons.prems(1) kn obtain x where
    x: "open_h5_value dec n = Inr x"
    and rest: "open_h5_group_items dec items None (dict_set acc k x) = Inr r"
    by (auto simp add: open_h5_value_def split: h5node.splits sum.splits)
  from Cons.prems(3) kn have fresh: "k \<notin> fst ` set acc" by auto
  then have upd: "dict_set acc k x = acc @ [(k, x)]" by (rule dict_set_fresh)
  from Cons.prems(2) kn have d: "distinct (map fst items)" and notin: "k \<notin> fst ` set items"
    by auto
  from Cons.prems(3) notin have disj: "fst ` set items \<inter> fst ` set (acc @ [(k, x)]) = {}"
    by auto
  from rest upd have rest': "open_h5_group_items dec items None (acc @ [(k, x)]) = Inr r"
    by simp
  from Cons.IH [OF rest' d disj] obtain descs where
    "r = (acc @ [(k, x)]) @ descs"
    and "list_all2 (\<lambda>kn kv. fst kv = fst kn \<and>
           open_h5_value dec (snd kn) = Inr (snd kv)) items descs"
    by blast
  with x kn have "r = acc @ (k, x) # descs"
    and "list_all2 (\<lambda>kn kv. fst kv = fst kn \<and>
           open_h5_value dec (snd kn) = Inr (snd kv)) (kn # items) ((k, x) # descs)"
    by simp_all
  then show ?case by blast
qed

lemma open_h5_group_Inr:
  assumes "open_h5_group dec grp None = Inr data" and "distinct (map fst grp)"
  shows "list_all2 (\<lambda>kn kv. fst kv = fst kn \<and>
           open_h5_value dec (snd kn) = Inr (snd kv)) grp data"
  using open_h5_group_items_Inr [of dec grp "[]" data] assms
  by (simp add: open_h5_group.simps)

lemma open_h5_group_select:
  "open_h5_group dec grp key =
     open_h5_group dec
       (filter (\<lambda>kn. case key of None \<Rightarrow> True | Some (KeyStr k0) \<Rightarrow> fst kn = k0
                      | Some (KeySet ks) \<Rightarrow> fst kn \<in> ks) grp) None"
proof (cases key)
  case None
  then show ?thesis by simp
next
  case (Some ka)
  then show ?thesis
    by (cases ka) (simp_all add: open_h5_group.simps open_h5_group_items_filter)
qed

text \<open>
  C8.  Let \<open>selected\<close> be the members of the group that the argument \<open>key\<close> selects: all of
  them when \<open>key\<close> is \<open>None\<close>, the member of that name when it is a string, the members
  whose names are in it when it is a set.  What the reader returns is what it returns, with
  no filter, on the selected members: the filter applies to the first level only.  The
  dict returned has the names of the selected members as its keys, in their order; at a
  selected group it has the dict read from that group with no filter, at a selected
  dataset of bytes the decoded text, and at any other selected dataset the value of the
  dataset as it is.
\<close>

theorem reader_filter:
  assumes "distinct (map fst grp)" and "open_h5_group dec grp key = Inr data"
    and "selected = filter (\<lambda>kn. case key of None \<Rightarrow> True | Some (KeyStr k0) \<Rightarrow> fst kn = k0
                                 | Some (KeySet ks) \<Rightarrow> fst kn \<in> ks) grp"
  shows "open_h5_group dec selected None = Inr data \<and>
         map fst data = map fst selected \<and>
         (\<forall>k g. (k, H5Group g) \<in> set selected \<longrightarrow>
            (\<exists>d. open_h5_group dec g None = Inr d \<and> map_of data k = Some (PDict d))) \<and>
         (\<forall>k b gzip. (k, H5Dataset (PBytes b) gzip) \<in> set selected \<longrightarrow>
            (\<exists>s. dec b = Inr s \<and> map_of data k = Some (PStr s))) \<and>
         (\<forall>k v gzip. (k, H5Dataset v gzip) \<in> set selected \<and> (\<forall>b. v \<noteq> PBytes b) \<longrightarrow>
            map_of data k = Some v)"
proof -
  from assms(2,3) have full: "open_h5_group dec selected None = Inr data"
    by (simp only: open_h5_group_select [of dec grp key])
  from assms(1,3) have dF: "distinct (map fst selected)"
    by (simp add: distinct_map_filter)
  note all2 = open_h5_group_Inr [OF full dF]
  have keys: "map fst data = map fst selected"
    by (rule described_keys [where P = "\<lambda>n x. open_h5_value dec n = Inr x", OF all2])
  have look: "\<exists>x. open_h5_value dec n = Inr x \<and> map_of data k = Some x"
    if "(k, n) \<in> set selected" for k n
    by (rule described_lookup [where P = "\<lambda>n x. open_h5_value dec n = Inr x",
          OF all2 dF that])
  have groups: "\<exists>d. open_h5_group dec g None = Inr d \<and> map_of data k = Some (PDict d)"
    if "(k, H5Group g) \<in> set selected" for k g
  proof -
    from look [OF that] obtain x where
      "open_h5_value dec (H5Group g) = Inr x" and "map_of data k = Some x"
      by blast
    then show ?thesis
      by (cases "open_h5_group dec g None") (auto simp add: open_h5_value_def)
  qed
  have bytes: "\<exists>s. dec b = Inr s \<and> map_of data k = Some (PStr s)"
    if "(k, H5Dataset (PBytes b) gzip) \<in> set selected" for k b gzip
  proof -
    from look [OF that] obtain x where
      "open_h5_value dec (H5Dataset (PBytes b) gzip) = Inr x" and "map_of data k = Some x"
      by blast
    then show ?thesis
      by (cases "dec b") (auto simp add: open_h5_value_def transform_on_open_def)
  qed
  have others: "map_of data k = Some v"
    if "(k, H5Dataset v gzip) \<in> set selected \<and> (\<forall>b. v \<noteq> PBytes b)" for k v gzip
  proof -
    from that have mem: "(k, H5Dataset v gzip) \<in> set selected" by simp
    from look [OF mem] obtain x where
      "open_h5_value dec (H5Dataset v gzip) = Inr x" and "map_of data k = Some x"
      by blast
    with that show ?thesis
      by (cases v) (auto simp add: open_h5_value_def transform_on_open_def)
  qed
  from full keys groups bytes others show ?thesis by blast
qed

theorem reader_filter_witness:
  "open_h5_group dec_example
     [(''a'', H5Group [(''m'', H5Dataset (NpInt 3) False),
                       (''n'', H5Dataset (PBytes ''hi'') False)]),
      (''b'', H5Dataset (NpInt 1) False),
      (''c'', H5Dataset (PBytes ''yes'') False)] (Some (KeySet {''a'', ''c''})) =
     Inr [(''a'', PDict [(''m'', NpInt 3), (''n'', PStr ''hi'')]), (''c'', PStr ''yes'')] \<and>
   open_h5_group dec_example
     [(''a'', H5Group [(''m'', H5Dataset (NpInt 3) False),
                       (''n'', H5Dataset (PBytes ''hi'') False)]),
      (''c'', H5Dataset (PBytes ''yes'') False)] None =
     Inr [(''a'', PDict [(''m'', NpInt 3), (''n'', PStr ''hi'')]), (''c'', PStr ''yes'')] \<and>
   open_h5_group dec_example
     [(''a'', H5Group [(''m'', H5Dataset (NpInt 3) False),
                       (''n'', H5Dataset (PBytes ''hi'') False)]),
      (''b'', H5Dataset (NpInt 1) False),
      (''c'', H5Dataset (PBytes ''yes'') False)] (Some (KeyStr ''b'')) =
     Inr [(''b'', NpInt 1)] \<and>
   open_h5_group dec_example [(''b'', H5Dataset (NpInt 1) False)] None =
     Inr [(''b'', NpInt 1)]"
proof -
  let ?a = "H5Group [(''m'', H5Dataset (NpInt 3) False),
                     (''n'', H5Dataset (PBytes ''hi'') False)]"
  let ?grp = "[(''a'', ?a), (''b'', H5Dataset (NpInt 1) False),
               (''c'', H5Dataset (PBytes ''yes'') False)]"
  have d: "distinct (map fst ?grp)" by simp
  have ev_set: "open_h5_group dec_example ?grp (Some (KeySet {''a'', ''c''})) =
     Inr [(''a'', PDict [(''m'', NpInt 3), (''n'', PStr ''hi'')]), (''c'', PStr ''yes'')]"
    by (simp add: open_h5_group.simps transform_on_open_def dec_example_def ascii_def)
  have ev_str: "open_h5_group dec_example ?grp (Some (KeyStr ''b'')) = Inr [(''b'', NpInt 1)]"
    by (simp add: open_h5_group.simps transform_on_open_def dec_example_def ascii_def)
  have sel_set: "[(''a'', ?a), (''c'', H5Dataset (PBytes ''yes'') False)] =
      filter (\<lambda>kn. case Some (KeySet {''a'', ''c''}) of None \<Rightarrow> True
                   | Some (KeyStr k0) \<Rightarrow> fst kn = k0 | Some (KeySet ks) \<Rightarrow> fst kn \<in> ks) ?grp"
    by simp
  have sel_str: "[(''b'', H5Dataset (NpInt 1) False)] =
      filter (\<lambda>kn. case Some (KeyStr ''b'') of None \<Rightarrow> True
                   | Some (KeyStr k0) \<Rightarrow> fst kn = k0 | Some (KeySet ks) \<Rightarrow> fst kn \<in> ks) ?grp"
    by simp
  from reader_filter [OF d ev_set sel_set] reader_filter [OF d ev_str sel_str] ev_set ev_str
  show ?thesis by blast
qed

section \<open>The rendering\<close>

lemma py_replace_Nil: "old \<noteq> [] \<Longrightarrow> py_replace old new [] = []"
  by (subst py_replace.simps) simp

lemma py_replace_match:
  "old \<noteq> [] \<Longrightarrow> py_replace old new (old @ s) = new @ py_replace old new s"
  by (subst py_replace.simps) simp

lemma py_replace_skip:
  "old \<noteq> [] \<Longrightarrow> take (length old) (c # s) \<noteq> old \<Longrightarrow>
     py_replace old new (c # s) = c # py_replace old new s"
  by (subst py_replace.simps) simp

lemma py_replace_hit:
  "old \<noteq> [] \<Longrightarrow> take (length old) (c # s) = old \<Longrightarrow>
     py_replace old new (c # s) = new @ py_replace old new (drop (length old) (c # s))"
  by (subst py_replace.simps) simp

text \<open>Up to the first occurrence of \<open>old\<close> the text stays; there \<open>new\<close> takes its place.\<close>

lemma py_replace_first:
  assumes "old \<noteq> []" and "\<not> occurs old (pre @ butlast old)"
  shows "py_replace old new (pre @ old @ post) = pre @ new @ py_replace old new post"
  using assms(2)
proof (induction pre)
  case Nil
  from assms(1) show ?case by (simp add: py_replace_match)
next
  case (Cons c pre)
  from Cons.prems have no: "take (length old) ((c # pre) @ butlast old) \<noteq> old"
    and rest: "\<not> occurs old (pre @ butlast old)"
    by simp_all
  from assms(1) have "old = butlast old @ [last old]" by simp
  then have "(c # pre) @ old @ post = ((c # pre) @ butlast old) @ (last old # post)"
    by (metis append.assoc append_Cons append_Nil)
  moreover from assms(1) have "length old \<le> length ((c # pre) @ butlast old)" by simp
  ultimately have "take (length old) ((c # pre) @ old @ post) =
      take (length old) ((c # pre) @ butlast old)"
    by (metis append.right_neutral diff_is_0_eq take_0 take_append)
  with no have here: "take (length old) (c # (pre @ old @ post)) \<noteq> old" by simp
  from Cons.IH [OF rest] py_replace_skip [OF assms(1) here, of new]
  show ?case by simp
qed

text \<open>A text in which \<open>old\<close> does not occur stays as it is.\<close>

lemma py_replace_none:
  assumes "old \<noteq> []" and "\<not> occurs old s"
  shows "py_replace old new s = s"
  using assms(2)
proof (induction s)
  case Nil
  from assms(1) show ?case by (simp add: py_replace_Nil)
next
  case (Cons c s)
  then have here: "take (length old) (c # s) \<noteq> old" and rest: "\<not> occurs old s"
    by simp_all
  from Cons.IH [OF rest] py_replace_skip [OF assms(1) here, of new]
  show ?case by simp
qed

lemma json_indent_eval:
  "json_indent 0 = []"
  "json_indent (Suc 0) = ''    ''"
  "json_indent (Suc (Suc 0)) = ''        ''"
  by (simp_all add: json_indent_def eval_nat_numeral)

lemma json_example:
  "output_dict_structure np_shape [(''b'', PStr ''x''), (''a'', PDict [])] None =
     Inr (''{'' @ [newline] @ ''    '' @ [dquote] @ ''a'' @ [dquote] @ '': '' @ [dquote]
          @ ''variable of type dict'' @ [dquote] @ '','' @ [newline]
          @ ''    '' @ [dquote] @ ''b'' @ [dquote] @ '': '' @ [dquote]
          @ ''variable of type str'' @ [dquote] @ [newline] @ ''}'')"
  by (simp add: output_dict_structure_def get_dict_structure_def value_str value_dict
      dict_to_json_format_str_def json_string_def json_escape_char_def json_indent_eval)

lemma annotate_foldl:
  "annotate dict_str info =
     foldl (\<lambda>s kv. py_replace ([dquote] @ fst kv @ [dquote] @ '':'')
                      ([dquote] @ fst kv @ [dquote] @ snd kv @ '':'') s) dict_str info"
  by (induction info arbitrary: dict_str) (auto simp add: key_colon_def key_info_colon_def)

text \<open>
  C9, as the code has it.  The annotations are applied one after the other, each to the
  text that the ones before it have left: the output is the rendering of the summary in
  which, for each annotation \<open>info\<close> of a key in turn, every occurrence of the text
  \<open>"key":\<close> is replaced by \<open>"key"\<close>, the annotation and the colon.  One such replacement
  leaves the text as it is up to the first occurrence of \<open>"key":\<close>, puts the annotation
  there between the closing quote of the key and the colon, and goes on in the same way
  in what follows the occurrence; a text in which \<open>"key":\<close> does not occur stays as it is.
  The annotation is put before the colon, not after it.
\<close>

theorem annotation_before_colon:
  assumes "get_dict_structure shp data 3 = Inr structure"
  shows "output_dict_structure shp data (Some info) =
           Inr (foldl (\<lambda>s kv. py_replace ([dquote] @ fst kv @ [dquote] @ '':'')
                                 ([dquote] @ fst kv @ [dquote] @ snd kv @ '':'') s)
                  (dict_to_json_format_str structure) info) \<and>
         (\<forall>key value pre post.
            \<not> occurs ([dquote] @ key @ [dquote] @ '':'') (pre @ [dquote] @ key @ [dquote]) \<longrightarrow>
            py_replace ([dquote] @ key @ [dquote] @ '':'')
                ([dquote] @ key @ [dquote] @ value @ '':'')
                (pre @ ([dquote] @ key @ [dquote] @ '':'') @ post) =
              pre @ ([dquote] @ key @ [dquote] @ value @ '':'')
                @ py_replace ([dquote] @ key @ [dquote] @ '':'')
                    ([dquote] @ key @ [dquote] @ value @ '':'') post) \<and>
         (\<forall>key value s.
            \<not> occurs ([dquote] @ key @ [dquote] @ '':'') s \<longrightarrow>
            py_replace ([dquote] @ key @ [dquote] @ '':'')
                ([dquote] @ key @ [dquote] @ value @ '':'') s = s)"
proof (intro conjI allI impI)
  from assms show "output_dict_structure shp data (Some info) =
           Inr (foldl (\<lambda>s kv. py_replace ([dquote] @ fst kv @ [dquote] @ '':'')
                                 ([dquote] @ fst kv @ [dquote] @ snd kv @ '':'') s)
                  (dict_to_json_format_str structure) info)"
    by (cases info) (simp_all add: output_dict_structure_def annotate_foldl)
next
  fix key info pre post
  let ?old = "[dquote] @ key @ [dquote] @ '':''"
  assume "\<not> occurs ?old (pre @ [dquote] @ key @ [dquote])"
  then have no: "\<not> occurs ?old (pre @ butlast ?old)"
    by (simp add: butlast_append)
  have ne: "?old \<noteq> []" by simp
  from py_replace_first [OF ne no]
  show "py_replace ?old ([dquote] @ key @ [dquote] @ info @ '':'') (pre @ ?old @ post) =
          pre @ ([dquote] @ key @ [dquote] @ info @ '':'')
            @ py_replace ?old ([dquote] @ key @ [dquote] @ info @ '':'') post" .
next
  fix key info s
  let ?old = "[dquote] @ key @ [dquote] @ '':''"
  assume no: "\<not> occurs ?old s"
  have ne: "?old \<noteq> []" by simp
  from py_replace_none [OF ne no]
  show "py_replace ?old ([dquote] @ key @ [dquote] @ info @ '':'') s = s" .
qed

lemma json_ab:
  "get_dict_structure np_shape [(''b'', PStr ''y''), (''a'', PStr ''x'')] 3 =
     Inr [(''b'', SStr ''variable of type str''), (''a'', SStr ''variable of type str'')]"
  "dict_to_json_format_str
     [(''b'', SStr ''variable of type str''), (''a'', SStr ''variable of type str'')] =
     ''{'' @ [newline] @ ''    '' @ [dquote] @ ''a'' @ [dquote] @ '': '' @ [dquote]
       @ ''variable of type str'' @ [dquote] @ '','' @ [newline]
       @ ''    '' @ [dquote] @ ''b'' @ [dquote] @ '': '' @ [dquote]
       @ ''variable of type str'' @ [dquote] @ [newline] @ ''}''"
  by (simp_all add: get_dict_structure_def value_str dict_to_json_format_str_def
      json_string_def json_escape_char_def json_indent_eval)

theorem annotation_before_colon_witness:
  "output_dict_structure np_shape [(''b'', PStr ''y''), (''a'', PStr ''x'')]
     (Some [(''a'', ''! '' @ [dquote] @ ''b'' @ [dquote] @ '':''), (''b'', ''?'')]) =
     Inr (''{'' @ [newline] @ ''    '' @ [dquote] @ ''a'' @ [dquote] @ ''! '' @ [dquote]
          @ ''b'' @ [dquote] @ ''?:: '' @ [dquote] @ ''variable of type str'' @ [dquote]
          @ '','' @ [newline]
          @ ''    '' @ [dquote] @ ''b'' @ [dquote] @ ''?: '' @ [dquote]
          @ ''variable of type str'' @ [dquote] @ [newline] @ ''}'') \<and>
   \<not> occurs ([dquote] @ ''b'' @ [dquote] @ '':'')
       ((''{'' @ [newline] @ ''  '') @ [dquote] @ ''b'' @ [dquote]) \<and>
   py_replace ([dquote] @ ''b'' @ [dquote] @ '':'') ([dquote] @ ''b'' @ [dquote] @ ''?'' @ '':'')
       ((''{'' @ [newline] @ ''  '') @ ([dquote] @ ''b'' @ [dquote] @ '':'') @ '' 1'') =
     (''{'' @ [newline] @ ''  '') @ ([dquote] @ ''b'' @ [dquote] @ ''?'' @ '':'') @ '' 1''"
proof -
  note inst = annotation_before_colon [OF json_ab(1),
      of "[(''a'', ''! '' @ [dquote] @ ''b'' @ [dquote] @ '':''), (''b'', ''?'')]"]
  from inst have out: "output_dict_structure np_shape [(''b'', PStr ''y''), (''a'', PStr ''x'')]
     (Some [(''a'', ''! '' @ [dquote] @ ''b'' @ [dquote] @ '':''), (''b'', ''?'')]) =
     Inr (foldl (\<lambda>s kv. py_replace ([dquote] @ fst kv @ [dquote] @ '':'')
                                 ([dquote] @ fst kv @ [dquote] @ snd kv @ '':'') s)
            (dict_to_json_format_str
               [(''b'', SStr ''variable of type str''), (''a'', SStr ''variable of type str'')])
            [(''a'', ''! '' @ [dquote] @ ''b'' @ [dquote] @ '':''), (''b'', ''?'')])"
    by blast
  have first: "output_dict_structure np_shape [(''b'', PStr ''y''), (''a'', PStr ''x'')]
     (Some [(''a'', ''! '' @ [dquote] @ ''b'' @ [dquote] @ '':''), (''b'', ''?'')]) =
     Inr (''{'' @ [newline] @ ''    '' @ [dquote] @ ''a'' @ [dquote] @ ''! '' @ [dquote]
          @ ''b'' @ [dquote] @ ''?:: '' @ [dquote] @ ''variable of type str'' @ [dquote]
          @ '','' @ [newline]
          @ ''    '' @ [dquote] @ ''b'' @ [dquote] @ ''?: '' @ [dquote]
          @ ''variable of type str'' @ [dquote] @ [newline] @ ''}'')"
    unfolding out json_ab(2)
    by (simp add: py_replace_skip py_replace_hit py_replace_Nil)
  have no: "\<not> occurs ([dquote] @ ''b'' @ [dquote] @ '':'')
       ((''{'' @ [newline] @ ''  '') @ [dquote] @ ''b'' @ [dquote])"
    by simp
  have none: "\<not> occurs ([dquote] @ ''b'' @ [dquote] @ '':'') '' 1''"
    by simp
  from inst no have "py_replace ([dquote] @ ''b'' @ [dquote] @ '':'')
       ([dquote] @ ''b'' @ [dquote] @ ''?'' @ '':'')
       ((''{'' @ [newline] @ ''  '') @ ([dquote] @ ''b'' @ [dquote] @ '':'') @ '' 1'') =
     (''{'' @ [newline] @ ''  '') @ ([dquote] @ ''b'' @ [dquote] @ ''?'' @ '':'')
       @ py_replace ([dquote] @ ''b'' @ [dquote] @ '':'')
           ([dquote] @ ''b'' @ [dquote] @ ''?'' @ '':'') '' 1''"
    by blast
  moreover from inst none have "py_replace ([dquote] @ ''b'' @ [dquote] @ '':'')
           ([dquote] @ ''b'' @ [dquote] @ ''?'' @ '':'') '' 1'' = '' 1''"
    by blast
  ultimately have second: "py_replace ([dquote] @ ''b'' @ [dquote] @ '':'')
       ([dquote] @ ''b'' @ [dquote] @ ''?'' @ '':'')
       ((''{'' @ [newline] @ ''  '') @ ([dquote] @ ''b'' @ [dquote] @ '':'') @ '' 1'') =
     (''{'' @ [newline] @ ''  '') @ ([dquote] @ ''b'' @ [dquote] @ ''?'' @ '':'') @ '' 1''"
    by simp
  from first no second show ?thesis by blast
qed

text \<open>
  The claim C9 as stated fails: the annotation is put between the closing quote of the key
  and the colon, not after the colon.
\<close>

theorem annotation_counterexample:
  "output_dict_structure np_shape [(''a'', PStr ''x'')] (Some [(''a'', ''!'')]) =
     Inr (''{'' @ [newline] @ ''    '' @ [dquote] @ ''a'' @ [dquote] @ ''!: '' @ [dquote]
          @ ''variable of type str'' @ [dquote] @ [newline] @ ''}'') \<and>
   output_dict_structure np_shape [(''a'', PStr ''x'')] (Some [(''a'', ''!'')]) \<noteq>
     Inr (''{'' @ [newline] @ ''    '' @ [dquote] @ ''a'' @ [dquote] @ '':! '' @ [dquote]
          @ ''variable of type str'' @ [dquote] @ [newline] @ ''}'')"
  by (simp add: output_dict_structure_def get_dict_structure_def value_str
      dict_to_json_format_str_def json_string_def json_escape_char_def json_indent_eval
      key_colon_def key_info_colon_def py_replace_skip py_replace_hit py_replace_Nil)

section \<open>The writer\<close>

lemma group_pop_absent: "key \<notin> fst ` set grp \<Longrightarrow> group_pop grp key = grp"
  by (induction grp) (auto simp add: group_pop_def)

lemma group_pop_keys: "key \<notin> fst ` set (group_pop grp key)"
  by (auto simp add: group_pop_def)

lemma group_pop_other: "k \<noteq> key \<Longrightarrow> map_of (group_pop grp key) k = map_of grp k"
  by (induction grp) (auto simp add: group_pop_def)

lemma group_pop_map_of: "map_of (group_pop grp key) = (map_of grp)(key := None)"
proof
  fix k
  show "map_of (group_pop grp key) k = ((map_of grp)(key := None)) k"
  proof (cases "k = key")
    case True
    with group_pop_keys [of key grp] show ?thesis
      by (simp add: map_of_eq_None_iff)
  next
    case False
    then show ?thesis by (simp add: group_pop_other)
  qed
qed

lemma group_pop_sorted: "sorted (map fst grp) \<Longrightarrow> sorted (map fst (group_pop grp key))"
  by (simp add: group_pop_def sorted_filter)

lemma group_pop_distinct: "distinct (map fst grp) \<Longrightarrow> distinct (map fst (group_pop grp key))"
  by (simp add: group_pop_def distinct_map_filter)

text \<open>A new member takes its place among the names.\<close>

lemma insort_keys: "fst ` set (insort_key fst x g) = insert (fst x) (fst ` set g)"
  by (simp add: set_insort_key)

lemma insort_distinct:
  "fst x \<notin> fst ` set g \<Longrightarrow> distinct (map fst g) \<Longrightarrow>
     distinct (map fst (insort_key fst x g))"
  by (induction g) (auto simp add: set_insort_key)

lemma insort_map_of:
  "k \<notin> fst ` set g \<Longrightarrow> map_of (insort_key fst (k, m) g) = (map_of g)(k \<mapsto> m)"
proof (induction g)
  case Nil
  then show ?case by simp
next
  case (Cons kn g)
  obtain k' n where kn: "kn = (k', n)" by (cases kn)
  from Cons.prems kn have ne: "k' \<noteq> k" and notin: "k \<notin> fst ` set g" by auto
  from Cons.IH [OF notin] kn ne show ?case by (auto simp add: fun_upd_twist)
qed

lemma dict_set_insort:
  "key \<notin> fst ` set grp \<Longrightarrow>
     dict_set (insort_key fst (key, x) grp) key y = insort_key fst (key, y) grp"
  by (induction grp) auto

lemma foldr_insort_comm:
  "fst x \<notin> fst ` set ns \<Longrightarrow>
     foldr (insort_key fst) ns (insort_key fst x g) =
       insort_key fst x (foldr (insort_key fst) ns g)"
proof (induction ns)
  case Nil
  then show ?case by simp
next
  case (Cons a ns)
  then have ne: "fst a \<noteq> fst x" and notin: "fst x \<notin> fst ` set ns" by auto
  have "foldr (insort_key fst) (a # ns) (insort_key fst x g) =
      insort_key fst a (insort_key fst x (foldr (insort_key fst) ns g))"
    using Cons.IH [OF notin] by simp
  also from ne [symmetric]
  have "\<dots> = insort_key fst x (insort_key fst a (foldr (insort_key fst) ns g))"
    by (rule insort_key_left_comm)
  finally show ?case by simp
qed

lemma stored_None: "stored conv PNone = Inr None"
  by (simp add: stored.simps)

lemma stored_items_Cons:
  assumes "stored_items conv ((k, v) # items) = Inr ns"
  shows "\<exists>n ns'. stored conv v = Inr n \<and> stored_items conv items = Inr ns' \<and>
           ns = (case n of None \<Rightarrow> ns' | Some m \<Rightarrow> (k, m) # ns')"
  using assms
  by (cases "stored_items conv items") (auto split: sum.splits option.splits)

lemma stored_items_keys:
  "stored_items conv items = Inr ns \<Longrightarrow> fst ` set ns \<subseteq> fst ` set items"
proof (induction items arbitrary: ns)
  case Nil
  then show ?case by simp
next
  case (Cons kv items)
  obtain k v where kv: "kv = (k, v)" by (cases kv)
  from stored_items_Cons [of conv k v items ns] Cons.prems kv obtain n ns' where
    ns': "stored_items conv items = Inr ns'"
    and ns: "ns = (case n of None \<Rightarrow> ns' | Some m \<Rightarrow> (k, m) # ns')"
    by blast
  from Cons.IH [OF ns'] ns kv show ?case by (cases n) auto
qed

text \<open>The writer stores, under a new key, what \<open>stored\<close> says.\<close>

lemma save_sub_dict_stored:
  "keys_ok data \<longrightarrow> key \<notin> fst ` set grp \<longrightarrow>
     (\<forall>n. stored conv data = Inr n \<longrightarrow>
        save_sub_dict conv grp data key =
          ((case n of None \<Rightarrow> grp | Some m \<Rightarrow> insort_key fst (key, m) grp), Inr ()))"
  and "keys_ok_items items \<longrightarrow> distinct (map fst items) \<longrightarrow>
     fst ` set items \<inter> fst ` set g = {} \<longrightarrow>
     (\<forall>ns. stored_items conv items = Inr ns \<longrightarrow>
        save_sub_dict_items conv g items = (foldr (insort_key fst) ns g, Inr ()))"
proof (induction conv grp data key and conv g items
    rule: save_sub_dict_save_sub_dict_items.induct)
  case (1 conv grp data key)
  show ?case
  proof (intro impI allI)
    fix n
    assume ok: "keys_ok data" and fresh: "key \<notin> fst ` set grp"
      and st: "stored conv data = Inr n"
    show "save_sub_dict conv grp data key =
            ((case n of None \<Rightarrow> grp | Some m \<Rightarrow> insort_key fst (key, m) grp), Inr ())"
    proof (cases "asarray_step (asdict_step data)")
      case (PDict d)
      from fresh have cg: "create_group grp key = Inr (insort_key fst (key, H5Group []) grp)"
        by (simp add: create_group_def)
      from ok PDict have dd: "distinct (map fst d)" and oki: "keys_ok_items d"
        by (simp_all add: keys_ok.simps)
      from st PDict obtain ns where ns: "stored_items conv d = Inr ns"
        and n: "n = Some (H5Group (sort_key fst ns))"
        by (cases "stored_items conv d") (auto simp add: stored.simps)
      from 1 [OF PDict cg] oki dd ns
      have "save_sub_dict_items conv [] d = (sort_key fst ns, Inr ())"
        by (simp add: sort_key_def)
      with PDict cg fresh n show ?thesis
        by (simp add: save_sub_dict.simps dict_set_insort)
    qed (use st fresh in \<open>auto simp add: save_sub_dict.simps stored.simps create_dataset_def
          is_ndarray_or_list_def split: sum.splits\<close>)
  qed
next
  case (2 conv g)
  show ?case by simp
next
  case (3 conv g k v items)
  show ?case
  proof (intro impI allI)
    fix ns
    assume oki: "keys_ok_items ((k, v) # items)"
      and dist: "distinct (map fst ((k, v) # items))"
      and disj: "fst ` set ((k, v) # items) \<inter> fst ` set g = {}"
      and st: "stored_items conv ((k, v) # items) = Inr ns"
    from stored_items_Cons [OF st] obtain n ns' where n: "stored conv v = Inr n"
      and ns': "stored_items conv items = Inr ns'"
      and ns: "ns = (case n of None \<Rightarrow> ns' | Some m \<Rightarrow> (k, m) # ns')"
      by blast
    from oki have okv: "keys_ok v" and okr: "keys_ok_items items" by simp_all
    from disj have fresh: "k \<notin> fst ` set g" by auto
    let ?g1 = "case n of None \<Rightarrow> g | Some m \<Rightarrow> insort_key fst (k, m) g"
    from 3(1) okv fresh n have s1: "save_sub_dict conv g v k = (?g1, Inr ())" by simp
    from dist have d': "distinct (map fst items)" and kn: "k \<notin> fst ` set items" by auto
    from disj kn have disj': "fst ` set items \<inter> fst ` set ?g1 = {}"
      by (cases n) (auto simp add: set_insort_key)
    from 3(2) [OF s1 [symmetric] refl] okr d' disj' ns'
    have rest: "save_sub_dict_items conv ?g1 items = (foldr (insort_key fst) ns' ?g1, Inr ())"
      by simp
    from stored_items_keys [OF ns'] kn have "fst (k, n') \<notin> fst ` set ns'" for n' :: h5node
      by auto
    from foldr_insort_comm [OF this]
    have comm: "foldr (insort_key fst) ns' (insort_key fst (k, m) g) =
        insort_key fst (k, m) (foldr (insort_key fst) ns' g)" for m .
    from s1 rest ns comm
    show "save_sub_dict_items conv g ((k, v) # items) = (foldr (insort_key fst) ns g, Inr ())"
      by (cases n) simp_all
  qed
qed

text \<open>
  The loop of \<open>save_dict\<close>: every key of the data ends with what is stored for its value,
  or absent when nothing is stored for it, and every other key keeps its member; the
  members stay in the order of their names.
\<close>

lemma save_dict_items_stored:
  assumes "keys_ok_items data" and "distinct (map fst data)"
    and "stored_items conv data = Inr ns"
    and "sorted (map fst file)" and "distinct (map fst file)"
  shows "\<exists>file'. save_dict_items conv file data = (file', Inr ()) \<and>
           sorted (map fst file') \<and> distinct (map fst file') \<and>
           (\<forall>k v. (k, v) \<in> set data \<longrightarrow> (\<exists>n. stored conv v = Inr n \<and> map_of file' k = n)) \<and>
           (\<forall>k. k \<notin> fst ` set data \<longrightarrow> map_of file' k = map_of file k)"
  using assms
proof (induction data arbitrary: "file" ns)
  case Nil
  then show ?case by simp
next
  case (Cons kv data)
  obtain k v where kv: "kv = (k, v)" by (cases kv)
  from stored_items_Cons [of conv k v data ns] Cons.prems(3) kv obtain n ns' where
    n: "stored conv v = Inr n" and ns': "stored_items conv data = Inr ns'"
    by blast
  from Cons.prems(1) kv have okv: "keys_ok v" and okr: "keys_ok_items data" by simp_all
  from Cons.prems(2) kv have d': "distinct (map fst data)" and kn: "k \<notin> fst ` set data"
    by auto
  let ?f1 = "group_pop file k"
  let ?g1 = "case n of None \<Rightarrow> ?f1 | Some m \<Rightarrow> insort_key fst (k, m) ?f1"
  have fresh: "k \<notin> fst ` set ?f1" by (rule group_pop_keys)
  from Cons.prems(4) have f1s: "sorted (map fst ?f1)" by (rule group_pop_sorted)
  from Cons.prems(5) have f1d: "distinct (map fst ?f1)" by (rule group_pop_distinct)
  from save_sub_dict_stored(1) [of v k ?f1 conv] okv fresh n
  have s1: "save_sub_dict conv ?f1 v k = (?g1, Inr ())" by simp
  have g1s: "sorted (map fst ?g1)"
    using f1s by (cases n) (simp_all add: sorted_insort_key)
  have g1d: "distinct (map fst ?g1)"
    using f1d fresh by (cases n) (simp_all add: insort_distinct)
  have g1m: "map_of ?g1 = (map_of file)(k := n)"
    using fresh by (cases n) (simp_all add: insort_map_of group_pop_map_of)
  have pop: "(if k \<in> fst ` set file then group_pop file k else file) = ?f1"
    by (simp add: group_pop_absent)
  have step: "save_dict_items conv file ((k, v) # data) = save_dict_items conv ?g1 data"
  proof (cases "v = PNone")
    case True
    with n have "n = None" by (simp add: stored_None)
    with True pop show ?thesis by simp
  next
    case False
    with pop s1 show ?thesis by simp
  qed
  from Cons.IH [OF okr d' ns' g1s g1d] obtain file' where
    run: "save_dict_items conv ?g1 data = (file', Inr ())"
    and fs: "sorted (map fst file')" and fd: "distinct (map fst file')"
    and inside: "\<forall>k v. (k, v) \<in> set data \<longrightarrow> (\<exists>n. stored conv v = Inr n \<and> map_of file' k = n)"
    and outside: "\<forall>k. k \<notin> fst ` set data \<longrightarrow> map_of file' k = map_of ?g1 k"
    by blast
  from outside kn g1m have here: "map_of file' k = n" by simp
  have "\<exists>n'. stored conv v' = Inr n' \<and> map_of file' k' = n'"
    if "(k', v') \<in> set (kv # data)" for k' v'
  proof (cases "(k', v') = (k, v)")
    case True
    with n here show ?thesis by simp
  next
    case False
    with that kv have "(k', v') \<in> set data" by auto
    with inside show ?thesis by blast
  qed
  moreover have "map_of file' k' = map_of file k'" if "k' \<notin> fst ` set (kv # data)" for k'
  proof -
    from that kv have "k' \<noteq> k" and "k' \<notin> fst ` set data" by auto
    with outside g1m show ?thesis by simp
  qed
  ultimately show ?case using step run fs fd kv by auto
qed

lemma save_dict_run:
  assumes "os_path_dirname filename \<noteq> []" and "lock_filename filename \<noteq> filename"
    and "fs (lock_filename filename) = None" and "h5py_File_a fs filename = Inr file"
    and "save_dict_items conv file data = (file', r)"
  shows "save_dict conv fs filename data = (fs(filename \<mapsto> Hdf5File file'), r)"
proof -
  let ?lock = "lock_filename filename"
  let ?fs1 = "fs(?lock \<mapsto> EmptyFile)"
  have enter: "LockFile_enter fs filename = Inr ?fs1"
    using assms(3) by (simp add: LockFile_enter_def)
  have opened: "h5py_File_a ?fs1 filename = Inr file"
    using assms(2,4) by (simp add: h5py_File_a_def)
  have exit: "LockFile_exit (?fs1(filename \<mapsto> Hdf5File file')) filename =
                fs(filename \<mapsto> Hdf5File file')"
    using assms(2,3) by (auto simp add: LockFile_exit_def fun_eq_iff)
  have mtime: "os_path_getmtime (fs(filename \<mapsto> Hdf5File file')) filename = Inr ()"
    by (simp add: os_path_getmtime_def)
  show ?thesis
    using assms(1,5) enter opened exit mtime
    by (cases r) (simp_all add: save_dict_def os_makedirs_def)
qed




section \<open>The round trip\<close>

text \<open>
  C1.  On the fresh path \<open>f.h5\<close>, which has no directory part, the write of
  \<open>{'x': [1, 2, 3], 's': b'hi'}\<close> raises \<open>FileNotFoundError\<close> and writes nothing
  (\<open>os.makedirs('')\<close> raises), and the read of the path then raises
  \<open>FileNotFoundError\<close>: there is no round trip.  On the fresh path \<open>d/f.h5\<close> the same write
  returns, and the read then returns the dict with the same keys, the list as an array and
  the bytes as text.
\<close>

theorem round_trip_bare_path:
  "save_dict conv_example Map.empty ''f.h5''
     [(''x'', PList [PInt 1, PInt 2, PInt 3]), (''s'', PBytes ''hi'')] =
     (Map.empty, Inl FileNotFoundError) \<and>
   open_h5 dec_example Map.empty ''f.h5'' None = Inl FileNotFoundError \<and>
   save_dict conv_example Map.empty ''d/f.h5''
     [(''x'', PList [PInt 1, PInt 2, PInt 3]), (''s'', PBytes ''hi'')] =
     ([''d/f.h5'' \<mapsto> Hdf5File
         [(''s'', H5Dataset (PBytes ''hi'') False),
          (''x'', H5Dataset (PArray (PList [PInt 1, PInt 2, PInt 3])) True)]], Inr ()) \<and>
   open_h5 dec_example
     [''d/f.h5'' \<mapsto> Hdf5File
         [(''s'', H5Dataset (PBytes ''hi'') False),
          (''x'', H5Dataset (PArray (PList [PInt 1, PInt 2, PInt 3])) True)]]
     ''d/f.h5'' None =
     Inr [(''s'', PStr ''hi''), (''x'', PArray (PList [PInt 1, PInt 2, PInt 3]))]"
  using example_path bare_path
  by (simp add: save_dict_def os_makedirs_def LockFile_enter_def LockFile_exit_def
      h5py_File_a_def h5py_File_r_def os_path_getmtime_def open_h5_def open_h5_group.simps
      save_sub_dict.simps create_dataset_def conv_example_def dec_example_def
      transform_on_open_def ascii_def int64_def is_ndarray_or_list_def fun_eq_iff)

end
